theory Spec2Isabelle
  imports Main "HOL-Library.Signed_Division"
begin

section \<open>The positioned stream\<close>

text \<open>
  \<^verbatim>\<open>pos_stream::Pos\<close>: the reading position kept beside the stream buffer. \<^verbatim>\<open>off\<close> is a
  \<^verbatim>\<open>std::streamoff\<close>, \<^verbatim>\<open>row\<close> and \<^verbatim>\<open>col\<close> are \<^verbatim>\<open>int\<close>; they are modelled as unbounded
  integers (signed overflow is undefined in the source and needs more than \<open>2^31\<close> characters).
\<close>

record Pos =
  off :: int
  row :: int
  col :: int

definition Pos_init :: Pos where
  "Pos_init = \<lparr>off = 0, row = 1, col = 1\<rparr>"

text \<open>
  \<^verbatim>\<open>Pos::update(char c)\<close>. The remainder of the source is C++'s \<^verbatim>\<open>%\<close>, which truncates towards
  zero: \<open>smod\<close> on \<open>int\<close>.
\<close>

definition update :: "Pos \<Rightarrow> char \<Rightarrow> Pos" where
  "update p ch =
     (let p1 = p\<lparr>off := off p + 1\<rparr> in
      if ch = CHR 0x09 then p1\<lparr>col := col p1 + (8 - (col p1 - 1) smod 8)\<rparr>
      else if ch = CHR 0x0A then p1\<lparr>row := row p1 + 1, col := 1\<rparr>
      else p1\<lparr>col := col p1 + 1\<rparr>)"

section \<open>The input stream\<close>

text \<open>
  A \<^verbatim>\<open>std::istream\<close> whose buffer is a \<^verbatim>\<open>pos_stream\<close> wrapping the source buffer \<^verbatim>\<open>sbuf\<close>.
  \<open>src\<close> is the whole content of the source, \<open>rd\<close> the read position of \<^verbatim>\<open>sbuf\<close>, and
  \<open>seekable\<close> says whether \<^verbatim>\<open>sbuf\<close> implements \<^verbatim>\<open>seekoff\<close>/\<^verbatim>\<open>seekpos\<close>. \<open>failbit\<close> and \<open>eofbit\<close>
  are the state bits of the \<^verbatim>\<open>istream\<close> (\<^verbatim>\<open>badbit\<close> is never set by this code and is left out,
  so \<^verbatim>\<open>fail()\<close> is \<open>failbit\<close>). \<open>pos\<close> is \<^verbatim>\<open>pos_stream::pos\<close> and \<open>lastc\<close> is the member
  \<^verbatim>\<open>pos_stream::c\<close>, the last character \<^verbatim>\<open>uflow\<close> read.
\<close>

record stream =
  src :: "char list"
  seekable :: bool
  rd :: nat
  failbit :: bool
  eofbit :: bool
  pos :: Pos
  lastc :: char

text \<open>
  A freshly opened stream over a seekable source. The member \<^verbatim>\<open>c\<close> is not initialised by the
  constructor of \<^verbatim>\<open>pos_stream\<close>; the model starts it at the zero character.
\<close>

definition open_stream :: "char list \<Rightarrow> stream" where
  "open_stream cs =
     \<lparr>src = cs, seekable = True, rd = 0, failbit = False, eofbit = False,
      pos = Pos_init, lastc = CHR 0x00\<rparr>"

text \<open>\<^verbatim>\<open>EOF\<close>, the \<^verbatim>\<open>int_type\<close> value \<^verbatim>\<open>peek\<close> returns at the end of the input.\<close>

definition EOF :: int where
  "EOF = - 1"

definition good :: "stream \<Rightarrow> bool" where
  "good s \<longleftrightarrow> \<not> failbit s \<and> \<not> eofbit s"

definition fail :: "stream \<Rightarrow> bool" where
  "fail s \<longleftrightarrow> failbit s"

text \<open>\<^verbatim>\<open>s.setstate(std::ios::failbit)\<close> and \<^verbatim>\<open>s.clear()\<close> (which resets every state bit).\<close>

definition setstate_failbit :: "stream \<Rightarrow> stream" where
  "setstate_failbit s = s\<lparr>failbit := True\<rparr>"

definition clear :: "stream \<Rightarrow> stream" where
  "clear s = s\<lparr>failbit := False, eofbit := False\<rparr>"

text \<open>
  The \<^verbatim>\<open>sentry\<close> every unformatted input function of \<^verbatim>\<open>std::istream\<close> constructs first
  (C++11 [istream::sentry]): when \<^verbatim>\<open>good()\<close> is false it sets \<^verbatim>\<open>failbit\<close> and the function
  reads nothing. This is the behaviour the source notes at \<^verbatim>\<open>eof()\<close>: "after peeking eof
  s.ignore() will mark the failbit".
\<close>

definition sentry :: "stream \<Rightarrow> bool \<times> stream" where
  "sentry s = (if good s then (True, s) else (False, s\<lparr>failbit := True\<rparr>))"

text \<open>
  \<^verbatim>\<open>s.peek()\<close>: the next character as an \<^verbatim>\<open>int_type\<close> (0..255) without extracting it, through
  \<^verbatim>\<open>pos_stream::underflow\<close> = \<^verbatim>\<open>sbuf->sgetc()\<close>; at the end of the source it sets \<^verbatim>\<open>eofbit\<close> and
  returns \<^verbatim>\<open>EOF\<close>; when the sentry fails it returns \<^verbatim>\<open>EOF\<close>.
\<close>

definition peek :: "stream \<Rightarrow> int \<times> stream" where
  "peek s =
     (case sentry s of (ok, s1) \<Rightarrow>
        if ok then
          (if rd s1 < length (src s1) then (of_char (src s1 ! rd s1), s1)
           else (EOF, s1\<lparr>eofbit := True\<rparr>))
        else (EOF, s1))"

text \<open>
  \<^verbatim>\<open>s.ignore()\<close>: extracts one character through \<^verbatim>\<open>pos_stream::uflow\<close>, which stores what
  \<^verbatim>\<open>sbuf->sbumpc()\<close> returned in the member \<^verbatim>\<open>c\<close>; at the end of the source it sets \<^verbatim>\<open>eofbit\<close>.
  When the sentry fails nothing is read and \<^verbatim>\<open>c\<close> keeps its old value.
\<close>

definition ignore :: "stream \<Rightarrow> stream" where
  "ignore s =
     (case sentry s of (ok, s1) \<Rightarrow>
        if ok then
          (if rd s1 < length (src s1)
           then s1\<lparr>rd := rd s1 + 1, lastc := src s1 ! rd s1\<rparr>
           else s1\<lparr>eofbit := True, lastc := char_of EOF\<rparr>)
        else s1)"

text \<open>\<^verbatim>\<open>update_pos(s)\<close>: \<^verbatim>\<open>ps->pos.update(ps->c)\<close>.\<close>

definition update_pos :: "stream \<Rightarrow> stream" where
  "update_pos s = s\<lparr>pos := update (pos s) (lastc s)\<rparr>"

text \<open>The helper \<^verbatim>\<open>tellg(s, since)\<close>: the characters consumed since offset \<open>since\<close>.\<close>

definition tellg :: "stream \<Rightarrow> int \<Rightarrow> int" where
  "tellg s since = off (pos s) - since"

text \<open>
  The member \<^verbatim>\<open>s.tellg()\<close> of \<^verbatim>\<open>std::istream\<close> (C++11 [istream.unformatted]): after the sentry,
  \<open>- 1\<close> if \<^verbatim>\<open>fail()\<close>, otherwise what \<^verbatim>\<open>pubseekoff(0, cur)\<close> of the source answers, which is
  \<open>- 1\<close> for a source that cannot seek.
\<close>

definition istream_tellg :: "stream \<Rightarrow> int \<times> stream" where
  "istream_tellg s =
     (case sentry s of (ok, s1) \<Rightarrow>
        if ok then (if seekable s1 then int (rd s1) else - 1, s1)
        else (- 1, s1))"

text \<open>
  \<^verbatim>\<open>s.seekg(p)\<close> (C++11): clears \<^verbatim>\<open>eofbit\<close>, then after the sentry repositions the source with
  \<^verbatim>\<open>pubseekpos\<close>; a source that cannot seek makes it set \<^verbatim>\<open>failbit\<close>. \<open>p\<close> is a position an
  earlier \<^verbatim>\<open>s.tellg()\<close> returned.
\<close>

definition seekg :: "int \<Rightarrow> stream \<Rightarrow> stream" where
  "seekg p s =
     (case sentry (s\<lparr>eofbit := False\<rparr>) of (ok, s1) \<Rightarrow>
        if ok then (if seekable s1 then s1\<lparr>rd := nat p\<rparr> else s1\<lparr>failbit := True\<rparr>)
        else s1)"

section \<open>Parsers\<close>

text \<open>
  Applying a parser either throws \<^verbatim>\<open>ParserError\<close>, leaving the stream as it is at the throw, or
  returns a value and leaves the stream, possibly marked failed. A parser is a function from
  the stream to such a result; \<open>None\<close> is a call that never returns (the loops of \<^verbatim>\<open>many\<close> and
  \<^verbatim>\<open>sep_by\<close> do not end while the repeated parser keeps succeeding).
\<close>

datatype 'a result = Throw stream | Return 'a stream

type_synonym 'a parser = "stream \<Rightarrow> 'a result option"

text \<open>The value-initialised \<^verbatim>\<open>T()\<close> of the source: \<^verbatim>\<open>char()\<close> is the zero character, \<^verbatim>\<open>C()\<close> the
  empty container.\<close>

instantiation char :: default
begin
definition default_char :: char where
  "default_char = CHR 0x00"
instance ..
end

instantiation list :: (type) default
begin
definition default_list :: "'a list" where
  "default_list = []"
instance ..
end

subsection \<open>Leaf parsers\<close>

text \<open>
  \<^verbatim>\<open>parser_match::operator()\<close>, with the virtual \<^verbatim>\<open>match\<close> as a parameter. \<^verbatim>\<open>const char c = s.peek()\<close>
  converts the \<^verbatim>\<open>int_type\<close> to \<^verbatim>\<open>char\<close>, so \<^verbatim>\<open>EOF\<close> becomes the character 0xFF.
\<close>

definition parser_match :: "(char \<Rightarrow> bool) \<Rightarrow> char parser" where
  "parser_match match s =
     (if fail s then Some (Throw s)
      else case peek s of (x, s1) \<Rightarrow>
        let ch = char_of x in
        if match ch then Some (Return ch (update_pos (ignore s1)))
        else Some (Return default (setstate_failbit s1)))"

definition chr :: "char \<Rightarrow> char parser" where
  "chr ch0 = parser_match (\<lambda>ch. ch = ch0)"

definition any_chr :: "char parser" where
  "any_chr = parser_match (\<lambda>ch. True)"

text \<open>
  \<^verbatim>\<open>strchr(s, c)\<close> as a truth value: the C string ends at its first zero character, and the
  terminating zero counts as part of it.
\<close>

definition strchr :: "char list \<Rightarrow> char \<Rightarrow> bool" where
  "strchr cs ch \<longleftrightarrow> ch \<in> set (takeWhile (\<lambda>x. x \<noteq> CHR 0x00) cs) \<or> ch = CHR 0x00"

definition one_of :: "char list \<Rightarrow> char parser" where
  "one_of cs = parser_match (\<lambda>ch. strchr cs ch)"

definition none_of :: "char list \<Rightarrow> char parser" where
  "none_of cs = parser_match (\<lambda>ch. \<not> strchr cs ch)"

definition blank :: "char parser" where
  "blank = one_of [CHR '' '', CHR 0x09]"

text \<open>
  A \<^verbatim>\<open>char\<close> passed where an \<^verbatim>\<open>int\<close> is expected is promoted; \<^verbatim>\<open>char\<close> is taken as signed, as on
  the usual x86 targets. \<^verbatim>\<open>isalpha\<close>, \<^verbatim>\<open>isalnum\<close> and \<^verbatim>\<open>isdigit\<close> are those of the "C" locale.
\<close>

definition int_of_char :: "char \<Rightarrow> int" where
  "int_of_char ch = (if (of_char ch :: int) < 128 then of_char ch else of_char ch - 256)"

definition isdigit :: "int \<Rightarrow> bool" where
  "isdigit x \<longleftrightarrow> 48 \<le> x \<and> x \<le> 57"

definition isalpha :: "int \<Rightarrow> bool" where
  "isalpha x \<longleftrightarrow> (65 \<le> x \<and> x \<le> 90) \<or> (97 \<le> x \<and> x \<le> 122)"

definition isalnum :: "int \<Rightarrow> bool" where
  "isalnum x \<longleftrightarrow> isalpha x \<or> isdigit x"

definition parser_fmatch :: "(int \<Rightarrow> bool) \<Rightarrow> char parser" where
  "parser_fmatch f = parser_match (\<lambda>ch. f (int_of_char ch))"

definition letter :: "char parser" where
  "letter = parser_fmatch isalpha"

definition alphanum :: "char parser" where
  "alphanum = parser_fmatch isalnum"

definition digit :: "char parser" where
  "digit = parser_fmatch isdigit"

text \<open>\<^verbatim>\<open>parser_eof::operator()\<close>; \<^verbatim>\<open>s.eof() || s.peek() == EOF\<close> peeks only when \<^verbatim>\<open>eofbit\<close> is clear.\<close>

definition eof :: "unit parser" where
  "eof s =
     (if fail s then Some (Throw s)
      else if eofbit s then Some (Return () s)
      else case peek s of (x, s1) \<Rightarrow>
        if x = EOF then Some (Return () s1)
        else Some (Return () (setstate_failbit s1)))"

text \<open>\<^verbatim>\<open>parser_skip::operator()\<close>: \<^verbatim>\<open>skip(p)\<close> runs \<open>p\<close> and drops its value.\<close>

definition skip :: "'a parser \<Rightarrow> unit parser" where
  "skip p s =
     (case p s of
        None \<Rightarrow> None
      | Some (Throw s1) \<Rightarrow> Some (Throw s1)
      | Some (Return u s1) \<Rightarrow> Some (Return () s1))"

definition skip_chr :: "char \<Rightarrow> unit parser" where
  "skip_chr ch = skip (chr ch)"

text \<open>
  The loop of \<^verbatim>\<open>parser_str::operator()\<close> over the characters of the literal, after the entry
  check and \<^verbatim>\<open>MARK\<close>. \<^verbatim>\<open>s.peek() == *t\<close> compares the \<^verbatim>\<open>int_type\<close> with the promoted \<^verbatim>\<open>char\<close>;
  \<^verbatim>\<open>RETURN()\<close> throws when the stream is failed and the offset has moved since \<open>off0\<close>.
\<close>

fun str_loop :: "int \<Rightarrow> char list \<Rightarrow> stream \<Rightarrow> unit result" where
  "str_loop off0 [] s = Return () s"
| "str_loop off0 (t # ts) s =
     (case peek s of (x, s1) \<Rightarrow>
        if x = int_of_char t then str_loop off0 ts (update_pos (ignore s1))
        else
          (let s2 = setstate_failbit s1 in
           if fail s2 \<and> tellg s2 off0 \<noteq> 0 then Throw s2 else Return () s2))"

definition parser_str :: "char list \<Rightarrow> unit parser" where
  "parser_str cs s =
     (if fail s then Some (Throw s)
      else Some (str_loop (tellg s 0) (takeWhile (\<lambda>x. x \<noteq> CHR 0x00) cs) s))"

subsection \<open>Combinators\<close>

text \<open>\<^verbatim>\<open>parser_map::operator()\<close>, \<^verbatim>\<open>p >> f\<close> for a plain function \<open>f\<close>.\<close>

definition parser_map :: "'u parser \<Rightarrow> ('u \<Rightarrow> 't::default) \<Rightarrow> 't parser" where
  "parser_map p f s =
     (case p s of
        None \<Rightarrow> None
      | Some (Throw s1) \<Rightarrow> Some (Throw s1)
      | Some (Return u s1) \<Rightarrow>
          if fail s1 then Some (Return default s1) else Some (Return (f u) s1))"

text \<open>
  \<^verbatim>\<open>char_to_string\<close>; the unary \<^verbatim>\<open>+p\<close> that turns a character parser into a string parser is
  \<^verbatim>\<open>p >> char_to_string\<close>, that is \<open>parser_map p char_to_string\<close>.
\<close>

definition char_to_string :: "char \<Rightarrow> char list" where
  "char_to_string ch = [ch]"

text \<open>\<^verbatim>\<open>parser_cat::operator()\<close>, \<^verbatim>\<open>p + q\<close> on string parsers.\<close>

definition parser_cat :: "char list parser \<Rightarrow> char list parser \<Rightarrow> char list parser" where
  "parser_cat p q s =
     (let off0 = tellg s 0 in
      case p s of
        None \<Rightarrow> None
      | Some (Throw s1) \<Rightarrow> Some (Throw s1)
      | Some (Return t s1) \<Rightarrow>
          if \<not> fail s1 then
            (case q s1 of
               None \<Rightarrow> None
             | Some (Throw s2) \<Rightarrow> Some (Throw s2)
             | Some (Return t2 s2) \<Rightarrow>
                 if fail s2 \<and> tellg s2 off0 \<noteq> 0 then Some (Throw s2)
                 else Some (Return (t @ t2) s2))
          else Some (Return t s1))"

text \<open>
  \<^verbatim>\<open>parser_many<C>::operator()\<close>: the loop with the container \<open>c\<close> built so far;
  \<^verbatim>\<open>c.insert(c.end(), t)\<close> appends.
\<close>

partial_function (option) many_loop :: "'a parser \<Rightarrow> 'a list \<Rightarrow> stream \<Rightarrow> 'a list result option"
where
  "many_loop p c s =
     (case p s of
        None \<Rightarrow> None
      | Some (Throw s1) \<Rightarrow> Some (Throw s1)
      | Some (Return t s1) \<Rightarrow>
          if fail s1 then Some (Return c (clear s1))
          else many_loop p (c @ [t]) s1)"

definition parser_many :: "'a parser \<Rightarrow> 'a list parser" where
  "parser_many p s = many_loop p [] s"

text \<open>\<^verbatim>\<open>parser_many<void>::operator()\<close>: \<^verbatim>\<open>do p(s); while (!s.fail()); s.clear();\<close>\<close>

partial_function (option) parser_many_void :: "unit parser \<Rightarrow> stream \<Rightarrow> unit result option"
where
  "parser_many_void p s =
     (case p s of
        None \<Rightarrow> None
      | Some (Throw s1) \<Rightarrow> Some (Throw s1)
      | Some (Return u s1) \<Rightarrow>
          if \<not> fail s1 then parser_many_void p s1
          else Some (Return () (clear s1)))"

definition blanks :: "unit parser" where
  "blanks = parser_many_void (skip blank)"

text \<open>\<^verbatim>\<open>parser_many1<T>::operator()\<close>: the first application, then the loop with the combiner.\<close>

partial_function (option) many1_loop ::
  "'a parser \<Rightarrow> ('a \<Rightarrow> 'a \<Rightarrow> 'a) \<Rightarrow> 'a \<Rightarrow> stream \<Rightarrow> 'a result option"
where
  "many1_loop p f c s =
     (case p s of
        None \<Rightarrow> None
      | Some (Throw s1) \<Rightarrow> Some (Throw s1)
      | Some (Return t s1) \<Rightarrow>
          if fail s1 then Some (Return c (clear s1))
          else many1_loop p f (f c t) s1)"

definition parser_many1 :: "'a parser \<Rightarrow> ('a \<Rightarrow> 'a \<Rightarrow> 'a) \<Rightarrow> 'a parser" where
  "parser_many1 p f s =
     (case p s of
        None \<Rightarrow> None
      | Some (Throw s1) \<Rightarrow> Some (Throw s1)
      | Some (Return c s1) \<Rightarrow>
          if fail s1 then Some (Return c s1)
          else many1_loop p f c s1)"

text \<open>\<^verbatim>\<open>parser_many1<void>::operator()\<close>.\<close>

definition parser_many1_void :: "unit parser \<Rightarrow> unit parser" where
  "parser_many1_void p s =
     (case p s of
        None \<Rightarrow> None
      | Some (Throw s1) \<Rightarrow> Some (Throw s1)
      | Some (Return u s1) \<Rightarrow>
          if \<not> fail s1 then parser_many_void p s1
          else Some (Return () s1))"

text \<open>
  \<^verbatim>\<open>parser_seq<U, T>::operator()\<close>, \<^verbatim>\<open>p > q\<close> returning the result of \<open>q\<close>. \<^verbatim>\<open>RETURN(t)\<close> throws
  when the stream is failed and the offset differs from the one \<^verbatim>\<open>MARK\<close> saved at entry.
\<close>

definition parser_seq :: "'u parser \<Rightarrow> 't parser \<Rightarrow> ('t::default) parser" where
  "parser_seq p q s =
     (let off0 = tellg s 0 in
      case p s of
        None \<Rightarrow> None
      | Some (Throw s1) \<Rightarrow> Some (Throw s1)
      | Some (Return u s1) \<Rightarrow>
          if fail s1 then Some (Return default s1)
          else
            (case q s1 of
               None \<Rightarrow> None
             | Some (Throw s2) \<Rightarrow> Some (Throw s2)
             | Some (Return t s2) \<Rightarrow>
                 if fail s2 \<and> tellg s2 off0 \<noteq> 0 then Some (Throw s2)
                 else Some (Return t s2)))"

text \<open>
  \<^verbatim>\<open>parser_seq<T, void>::operator()\<close>, \<^verbatim>\<open>p > q\<close> for a void \<open>q\<close>, returning the result of \<open>p\<close>;
  \<^verbatim>\<open>parser_seq<void, void>\<close> is the same code at the unit type.
\<close>

definition parser_seq_void :: "'t parser \<Rightarrow> unit parser \<Rightarrow> 't parser" where
  "parser_seq_void p q s =
     (let off0 = tellg s 0 in
      case p s of
        None \<Rightarrow> None
      | Some (Throw s1) \<Rightarrow> Some (Throw s1)
      | Some (Return t s1) \<Rightarrow>
          if \<not> fail s1 then
            (case q s1 of
               None \<Rightarrow> None
             | Some (Throw s2) \<Rightarrow> Some (Throw s2)
             | Some (Return u s2) \<Rightarrow>
                 if fail s2 \<and> tellg s2 off0 \<noteq> 0 then Some (Throw s2)
                 else Some (Return t s2))
          else Some (Return t s1))"

text \<open>
  \<^verbatim>\<open>parser_sep_by<C, U>::operator()\<close>: the loop after the first element. \<^verbatim>\<open>RETURN_IF_FAIL(C())\<close>
  throws when the stream is failed and the offset has moved since entry, and returns the empty
  container, the stream still failed, when it is failed and the offset has not moved.
\<close>

partial_function (option) sep_by_loop ::
  "'a parser \<Rightarrow> 'u parser \<Rightarrow> int \<Rightarrow> 'a list \<Rightarrow> stream \<Rightarrow> 'a list result option"
where
  "sep_by_loop p q off0 c s =
     (case q s of
        None \<Rightarrow> None
      | Some (Throw s1) \<Rightarrow> Some (Throw s1)
      | Some (Return u s1) \<Rightarrow>
          if fail s1 then Some (Return c (clear s1))
          else
            (case p s1 of
               None \<Rightarrow> None
             | Some (Throw s2) \<Rightarrow> Some (Throw s2)
             | Some (Return t s2) \<Rightarrow>
                 if fail s2 then
                   (if tellg s2 off0 \<noteq> 0 then Some (Throw s2)
                    else Some (Return default s2))
                 else sep_by_loop p q off0 (c @ [t]) s2))"

definition parser_sep_by :: "'a parser \<Rightarrow> 'u parser \<Rightarrow> 'a list parser" where
  "parser_sep_by p q s =
     (let off0 = tellg s 0 in
      case p s of
        None \<Rightarrow> None
      | Some (Throw s1) \<Rightarrow> Some (Throw s1)
      | Some (Return t s1) \<Rightarrow>
          if fail s1 then Some (Return [] (clear s1))
          else sep_by_loop p q off0 [t] s1)"

text \<open>\<^verbatim>\<open>parser_sep_by<void, U>::operator()\<close>.\<close>

partial_function (option) sep_by_void_loop ::
  "unit parser \<Rightarrow> 'u parser \<Rightarrow> int \<Rightarrow> stream \<Rightarrow> unit result option"
where
  "sep_by_void_loop p q off0 s =
     (case q s of
        None \<Rightarrow> None
      | Some (Throw s1) \<Rightarrow> Some (Throw s1)
      | Some (Return u s1) \<Rightarrow>
          if \<not> fail s1 then
            (case p s1 of
               None \<Rightarrow> None
             | Some (Throw s2) \<Rightarrow> Some (Throw s2)
             | Some (Return t s2) \<Rightarrow>
                 if fail s2 then
                   (if tellg s2 off0 \<noteq> 0 then Some (Throw s2)
                    else Some (Return () s2))
                 else sep_by_void_loop p q off0 s2)
          else Some (Return () (clear s1)))"

definition parser_sep_by_void :: "unit parser \<Rightarrow> 'u parser \<Rightarrow> unit parser" where
  "parser_sep_by_void p q s =
     (let off0 = tellg s 0 in
      case p s of
        None \<Rightarrow> None
      | Some (Throw s1) \<Rightarrow> Some (Throw s1)
      | Some (Return u s1) \<Rightarrow>
          if \<not> fail s1 then sep_by_void_loop p q off0 s1
          else Some (Return () (clear s1)))"



text \<open>
  \<^verbatim>\<open>parser_try<T>::operator()\<close>, \<^verbatim>\<open>try_(p)\<close>: the position and \<^verbatim>\<open>s.tellg()\<close> are saved, \<open>p\<close> runs,
  and a \<^verbatim>\<open>ParserError\<close> is caught; the stream is put back only if \<^verbatim>\<open>s.tellg()\<close> had answered a
  position.
\<close>

definition parser_try :: "'t parser \<Rightarrow> ('t::default) parser" where
  "parser_try p s =
     (let saved_pos = pos s in
      case istream_tellg s of (tg, s0) \<Rightarrow>
        (case p s0 of
           None \<Rightarrow> None
         | Some (Return t s1) \<Rightarrow> Some (Return t s1)
         | Some (Throw s1) \<Rightarrow>
             if tg \<noteq> - 1
             then Some (Return default ((setstate_failbit (seekg tg (clear s1)))\<lparr>pos := saved_pos\<rparr>))
             else Some (Return default s1)))"

subsection \<open>Specification devices\<close>

text \<open>
  Not part of the source: \<open>successes p n s\<close> runs \<open>p\<close> \<open>n\<close> times in a row starting at \<open>s\<close>, every
  application returning with the stream unfailed, and gives the values and the stream
  reached. It names "the first \<open>n\<close> applications of \<open>p\<close> succeed" in the statements about the
  repetition combinators.
\<close>

fun successes :: "'a parser \<Rightarrow> nat \<Rightarrow> stream \<Rightarrow> ('a list \<times> stream) option" where
  "successes p 0 s = Some ([], s)"
| "successes p (Suc n) s =
     (case p s of
        Some (Return t s1) \<Rightarrow>
          if fail s1 then None
          else (case successes p n s1 of
                  None \<Rightarrow> None
                | Some (ts, s2) \<Rightarrow> Some (t # ts, s2))
      | _ \<Rightarrow> None)"

text \<open>
  Likewise \<open>rounds q p n s\<close> runs \<open>n\<close> rounds "separator \<open>q\<close>, then element \<open>p\<close>", every application
  returning with the stream unfailed, and gives the elements and the stream reached.
\<close>

fun rounds :: "'u parser \<Rightarrow> 'a parser \<Rightarrow> nat \<Rightarrow> stream \<Rightarrow> ('a list \<times> stream) option" where
  "rounds q p 0 s = Some ([], s)"
| "rounds q p (Suc n) s =
     (case q s of
        Some (Return u s1) \<Rightarrow>
          if fail s1 then None
          else (case p s1 of
                  Some (Return t s2) \<Rightarrow>
                    if fail s2 then None
                    else (case rounds q p n s2 of
                            None \<Rightarrow> None
                          | Some (ts, s3) \<Rightarrow> Some (t # ts, s3))
                | _ \<Rightarrow> None)
      | _ \<Rightarrow> None)"

declare many_loop.simps [code]
declare parser_many_void.simps [code]
declare many1_loop.simps [code]
declare sep_by_loop.simps [code]
declare sep_by_void_loop.simps [code]

section \<open>Position update\<close>




section \<open>Leaf parsers on a failed stream\<close>

text \<open>
  C10. A leaf parser (\<^verbatim>\<open>chr\<close>, \<^verbatim>\<open>any_chr\<close>, \<^verbatim>\<open>one_of\<close>, \<^verbatim>\<open>none_of\<close>, \<^verbatim>\<open>blank\<close>, \<^verbatim>\<open>letter\<close>,
  \<^verbatim>\<open>alphanum\<close>, \<^verbatim>\<open>digit\<close>, \<^verbatim>\<open>skip\<close> of a literal string or of a character, \<^verbatim>\<open>eof\<close>, and any
  \<^verbatim>\<open>parser_match\<close> whatever its predicate) applied to a stream whose failure flag is already set
  throws \<^verbatim>\<open>ParserError\<close> at once: the stream at the throw is the stream at entry, so nothing is
  consumed and the position is unchanged, whatever the next character is.
\<close>

theorem leaf_on_failed_stream:
  "fail s \<Longrightarrow>
     parser_match m s = Some (Throw s) \<and> chr ch s = Some (Throw s) \<and> any_chr s = Some (Throw s)
     \<and> one_of cs s = Some (Throw s) \<and> none_of cs s = Some (Throw s) \<and> blank s = Some (Throw s)
     \<and> letter s = Some (Throw s) \<and> alphanum s = Some (Throw s) \<and> digit s = Some (Throw s)
     \<and> parser_str cs s = Some (Throw s) \<and> skip_chr ch s = Some (Throw s)
     \<and> eof s = Some (Throw s)"
  by (simp add: parser_match_def chr_def any_chr_def one_of_def none_of_def blank_def letter_def
      alphanum_def digit_def parser_fmatch_def parser_str_def skip_chr_def skip_def eof_def)

text \<open>On \<^verbatim>\<open>"a"\<close> the parser \<^verbatim>\<open>chr('a')\<close> matches; with the failure flag set it throws instead.\<close>

theorem leaf_on_failed_stream_witness:
  "fail (setstate_failbit (open_stream ''a''))
   \<and> chr (CHR ''a'') (open_stream ''a'')
       = Some (Return (CHR ''a'') \<lparr>src = ''a'', seekable = True, rd = 1, failbit = False,
           eofbit = False, pos = \<lparr>off = 1, row = 1, col = 2\<rparr>, lastc = CHR ''a''\<rparr>)
   \<and> chr (CHR ''a'') (setstate_failbit (open_stream ''a''))
       = Some (Throw (setstate_failbit (open_stream ''a'')))"
proof -
  have failed: "fail (setstate_failbit (open_stream ''a''))"
    by (simp add: fail_def setstate_failbit_def)
  have matches: "chr (CHR ''a'') (open_stream ''a'')
       = Some (Return (CHR ''a'') \<lparr>src = ''a'', seekable = True, rd = 1, failbit = False,
           eofbit = False, pos = \<lparr>off = 1, row = 1, col = 2\<rparr>, lastc = CHR ''a''\<rparr>)"
    by code_simp
  from leaf_on_failed_stream [OF failed, of "\<lambda>x. True" "CHR ''a''" "''a''"] failed matches
  show ?thesis by simp
qed

section \<open>Alternation\<close>

text \<open>
  A character parser that returns failed without having moved the offset leaves the stream as
  it was at entry apart from the state bits, so that clearing them gives back a good entry
  stream.
\<close>

lemma match_weak_failure:
  "good s \<Longrightarrow> parser_match m s = Some (Return t s1) \<Longrightarrow> fail s1
     \<Longrightarrow> tellg s1 (off (pos s)) = 0 \<Longrightarrow> clear s1 = s"
  by (auto simp add: parser_match_def good_def fail_def peek_def sentry_def Let_def clear_def
      setstate_failbit_def update_pos_def ignore_def tellg_def update_def EOF_def
      split: if_splits)




section \<open>Sequence\<close>

text \<open>
  C1 (as the code has it). For \<^verbatim>\<open>p > q\<close>: if \<open>p\<close> returns failed, the sequence returns at once
  with the stream as \<open>p\<close> left it (and the default value, or the value of \<open>p\<close> when \<open>q\<close> is
  void), and if \<open>p\<close> throws the throw propagates: \<open>q\<close> is not run and the tier of \<open>p\<close>'s failure
  is kept. If \<open>p\<close> succeeds and \<open>q\<close> returns failed, the sequence throws \<^verbatim>\<open>ParserError\<close> exactly
  when the offset differs from the offset at the entry of the sequence; when nothing has been
  consumed since entry (\<open>p\<close> succeeded without consuming and \<open>q\<close> failed weakly) the sequence
  returns with the failure flag set, a weak failure. A \<^verbatim>\<open>ParserError\<close> thrown by \<open>q\<close> propagates.
\<close>

theorem seq_outcome:
  "(p s = Some (Return u s1) \<and> fail s1 \<longrightarrow> parser_seq p q s = Some (Return default s1))
   \<and> (p s = Some (Throw s1) \<longrightarrow> parser_seq p q s = Some (Throw s1))
   \<and> (p s = Some (Return u s1) \<and> \<not> fail s1 \<and> q s1 = Some (Return t s2) \<and> fail s2 \<longrightarrow>
        parser_seq p q s =
          (if off (pos s2) \<noteq> off (pos s) then Some (Throw s2) else Some (Return t s2)))
   \<and> (p s = Some (Return u s1) \<and> \<not> fail s1 \<and> q s1 = Some (Throw s2) \<longrightarrow>
        parser_seq p q s = Some (Throw s2))
   \<and> (pt s = Some (Return t s1) \<and> fail s1 \<longrightarrow> parser_seq_void pt qv s = Some (Return t s1))
   \<and> (pt s = Some (Throw s1) \<longrightarrow> parser_seq_void pt qv s = Some (Throw s1))
   \<and> (pt s = Some (Return t s1) \<and> \<not> fail s1 \<and> qv s1 = Some (Return v s2) \<and> fail s2 \<longrightarrow>
        parser_seq_void pt qv s =
          (if off (pos s2) \<noteq> off (pos s) then Some (Throw s2) else Some (Return t s2)))
   \<and> (pt s = Some (Return t s1) \<and> \<not> fail s1 \<and> qv s1 = Some (Throw s2) \<longrightarrow>
        parser_seq_void pt qv s = Some (Throw s2))"
  by (simp add: parser_seq_def parser_seq_void_def tellg_def)

text \<open>
  A sequence whose first component has succeeded can be reported as a weak failure: on
  \<^verbatim>\<open>"b"\<close>, \<^verbatim>\<open>blanks()\<close> succeeds without consuming, \<^verbatim>\<open>chr('a')\<close> fails, and \<^verbatim>\<open>blanks() > chr('a')\<close>
  returns with the failure flag set and the position unchanged; no \<^verbatim>\<open>ParserError\<close> is thrown.
\<close>

theorem seq_weak_failure_counterexample:
  "blanks (open_stream ''b'') = Some (Return () (open_stream ''b''))
   \<and> chr (CHR ''a'') (open_stream ''b'')
       = Some (Return default ((open_stream ''b'')\<lparr>failbit := True\<rparr>))
   \<and> parser_seq blanks (chr (CHR ''a'')) (open_stream ''b'')
       = Some (Return default ((open_stream ''b'')\<lparr>failbit := True\<rparr>))"
  by code_simp

text \<open>
  \<^verbatim>\<open>chr('x') > chr('a')\<close> on \<^verbatim>\<open>"abc"\<close> stops at the weak failure of \<^verbatim>\<open>chr('x')\<close>;
  \<^verbatim>\<open>skip("ab") > chr('c')\<close> on \<^verbatim>\<open>"ac"\<close> passes on the throw of \<^verbatim>\<open>skip("ab")\<close>;
  \<^verbatim>\<open>skip(chr('a')) > chr('x')\<close> on \<^verbatim>\<open>"ab"\<close> throws, one character having been consumed;
  \<^verbatim>\<open>blanks() > chr('a')\<close> on \<^verbatim>\<open>"b"\<close> returns a weak failure.
\<close>

theorem seq_outcome_witness:
  "chr (CHR ''x'') (open_stream ''abc'')
     = Some (Return default ((open_stream ''abc'')\<lparr>failbit := True\<rparr>))
   \<and> parser_seq (chr (CHR ''x'')) (chr (CHR ''a'')) (open_stream ''abc'')
     = Some (Return default ((open_stream ''abc'')\<lparr>failbit := True\<rparr>))
   \<and> parser_str ''ab'' (open_stream ''ac'')
     = Some (Throw ((open_stream ''ac'')\<lparr>rd := 1, failbit := True,
         pos := \<lparr>off = 1, row = 1, col = 2\<rparr>, lastc := CHR ''a''\<rparr>))
   \<and> parser_seq (parser_str ''ab'') (chr (CHR ''c'')) (open_stream ''ac'')
     = Some (Throw ((open_stream ''ac'')\<lparr>rd := 1, failbit := True,
         pos := \<lparr>off = 1, row = 1, col = 2\<rparr>, lastc := CHR ''a''\<rparr>))
   \<and> skip (chr (CHR ''a'')) (open_stream ''ab'')
     = Some (Return () ((open_stream ''ab'')\<lparr>rd := 1,
         pos := \<lparr>off = 1, row = 1, col = 2\<rparr>, lastc := CHR ''a''\<rparr>))
   \<and> chr (CHR ''x'') ((open_stream ''ab'')\<lparr>rd := 1,
         pos := \<lparr>off = 1, row = 1, col = 2\<rparr>, lastc := CHR ''a''\<rparr>)
     = Some (Return default ((open_stream ''ab'')\<lparr>rd := 1, failbit := True,
         pos := \<lparr>off = 1, row = 1, col = 2\<rparr>, lastc := CHR ''a''\<rparr>))
   \<and> parser_seq (skip (chr (CHR ''a''))) (chr (CHR ''x'')) (open_stream ''ab'')
     = Some (Throw ((open_stream ''ab'')\<lparr>rd := 1, failbit := True,
         pos := \<lparr>off = 1, row = 1, col = 2\<rparr>, lastc := CHR ''a''\<rparr>))
   \<and> blanks (open_stream ''b'') = Some (Return () (open_stream ''b''))
   \<and> chr (CHR ''a'') (open_stream ''b'')
       = Some (Return default ((open_stream ''b'')\<lparr>failbit := True\<rparr>))
   \<and> parser_seq blanks (chr (CHR ''a'')) (open_stream ''b'')
       = Some (Return default ((open_stream ''b'')\<lparr>failbit := True\<rparr>))"
proof -
  let ?abc = "open_stream ''abc''"
  let ?ac1 = "(open_stream ''ac'')\<lparr>rd := 1, failbit := True,
         pos := \<lparr>off = 1, row = 1, col = 2\<rparr>, lastc := CHR ''a''\<rparr>"
  let ?ab1 = "(open_stream ''ab'')\<lparr>rd := 1,
         pos := \<lparr>off = 1, row = 1, col = 2\<rparr>, lastc := CHR ''a''\<rparr>"
  let ?ab2 = "(open_stream ''ab'')\<lparr>rd := 1, failbit := True,
         pos := \<lparr>off = 1, row = 1, col = 2\<rparr>, lastc := CHR ''a''\<rparr>"
  let ?b = "open_stream ''b''"
  have a1: "chr (CHR ''x'') ?abc = Some (Return default (?abc\<lparr>failbit := True\<rparr>))"
    by code_simp
  have a2: "fail (?abc\<lparr>failbit := True\<rparr>)"
    by (simp add: fail_def)
  have a: "parser_seq (chr (CHR ''x'')) (chr (CHR ''a'')) ?abc
      = Some (Return default (?abc\<lparr>failbit := True\<rparr>))"
    by (rule seq_outcome [of "chr (CHR ''x'')" ?abc default "?abc\<lparr>failbit := True\<rparr>"
          "chr (CHR ''a'')", THEN conjunct1, THEN mp]) (intro conjI a1 a2)
  have b1: "parser_str ''ab'' (open_stream ''ac'') = Some (Throw ?ac1)"
    by code_simp
  have b: "parser_seq (parser_str ''ab'') (chr (CHR ''c'')) (open_stream ''ac'') = Some (Throw ?ac1)"
    by (rule seq_outcome [of "parser_str ''ab''" "open_stream ''ac''" "()" ?ac1
          "chr (CHR ''c'')", THEN conjunct2, THEN conjunct1, THEN mp]) (rule b1)
  have c1: "skip (chr (CHR ''a'')) (open_stream ''ab'') = Some (Return () ?ab1)"
    by code_simp
  have c2: "\<not> fail ?ab1"
    by (simp add: fail_def open_stream_def)
  have c3: "chr (CHR ''x'') ?ab1 = Some (Return default ?ab2)"
    by code_simp
  have c4: "fail ?ab2"
    by (simp add: fail_def)
  have "parser_seq (skip (chr (CHR ''a''))) (chr (CHR ''x'')) (open_stream ''ab'')
      = (if off (pos ?ab2) \<noteq> off (pos (open_stream ''ab'')) then Some (Throw ?ab2)
         else Some (Return default ?ab2))"
    by (rule seq_outcome [of "skip (chr (CHR ''a''))" "open_stream ''ab''" "()" ?ab1
          "chr (CHR ''x'')" default ?ab2, THEN conjunct2, THEN conjunct2, THEN conjunct1,
          THEN mp]) (intro conjI c1 c2 c3 c4)
  then have c: "parser_seq (skip (chr (CHR ''a''))) (chr (CHR ''x'')) (open_stream ''ab'')
      = Some (Throw ?ab2)"
    by (simp add: open_stream_def Pos_init_def)
  have d1: "blanks ?b = Some (Return () ?b)"
    by code_simp
  have d2: "\<not> fail ?b"
    by (simp add: fail_def open_stream_def)
  have d3: "chr (CHR ''a'') ?b = Some (Return default (?b\<lparr>failbit := True\<rparr>))"
    by code_simp
  have d4: "fail (?b\<lparr>failbit := True\<rparr>)"
    by (simp add: fail_def)
  have "parser_seq blanks (chr (CHR ''a'')) ?b
      = (if off (pos (?b\<lparr>failbit := True\<rparr>)) \<noteq> off (pos ?b)
         then Some (Throw (?b\<lparr>failbit := True\<rparr>))
         else Some (Return default (?b\<lparr>failbit := True\<rparr>)))"
    by (rule seq_outcome [of blanks ?b "()" ?b "chr (CHR ''a'')" default
          "?b\<lparr>failbit := True\<rparr>", THEN conjunct2, THEN conjunct2, THEN conjunct1, THEN mp])
      (intro conjI d1 d2 d3 d4)
  then have d: "parser_seq blanks (chr (CHR ''a'')) ?b
      = Some (Return default (?b\<lparr>failbit := True\<rparr>))"
    by simp
  from a1 a b1 b c1 c3 c d1 d3 d show ?thesis
    by (intro conjI)
qed

section \<open>Backtracking\<close>





section \<open>Zero or more: \<^verbatim>\<open>many\<close>\<close>

text \<open>The loop of \<^verbatim>\<open>many\<close> after \<open>n\<close> successful applications of \<open>p\<close>, and what it can return.\<close>

lemma successes_Suc:
  "successes p (Suc n) s = Some (ts, sn) \<Longrightarrow>
     \<exists>t s1 ts'. p s = Some (Return t s1) \<and> \<not> fail s1 \<and> successes p n s1 = Some (ts', sn)
       \<and> ts = t # ts'"
  by (auto split: option.splits result.splits if_splits)

lemma many_loop_step:
  "p s = Some (Return t s1) \<Longrightarrow> \<not> fail s1 \<Longrightarrow> many_loop p c s = many_loop p (c @ [t]) s1"
  by (subst many_loop.simps) simp

lemma many_loop_successes:
  "successes p n s = Some (ts, sn) \<Longrightarrow> many_loop p c s = many_loop p (c @ ts) sn"
proof (induction n arbitrary: s c ts)
  case 0
  then show ?case by simp
next
  case (Suc n)
  from successes_Suc [OF Suc.prems] obtain t s1 ts' where
    step: "p s = Some (Return t s1)" "\<not> fail s1" and
    rest: "successes p n s1 = Some (ts', sn)" and ts: "ts = t # ts'"
    by blast
  have "many_loop p c s = many_loop p (c @ [t]) s1"
    using step by (rule many_loop_step)
  also have "\<dots> = many_loop p ((c @ [t]) @ ts') sn"
    using rest by (rule Suc.IH)
  finally show ?case
    by (simp add: ts)
qed

lemma many_loop_unfailed:
  assumes "many_loop p c s = Some (Return r s')"
  shows "\<not> fail s'"
proof -
  have "\<forall>r s'. y = Return r s' \<longrightarrow> \<not> fail s'" if "many_loop p c s = Some y" for y
  proof (rule many_loop.raw_induct
      [where P = "\<lambda>p c s y. \<forall>r s'. y = Return r s' \<longrightarrow> \<not> fail s'"])
    show "many_loop p c s = Some y"
      by (fact that)
  next
    fix g :: "'a parser \<Rightarrow> 'a list \<Rightarrow> stream \<Rightarrow> 'a list result option"
    fix p c s y
    assume IH: "\<And>p c s y. g p c s = Some y \<Longrightarrow> \<forall>r s'. y = Return r s' \<longrightarrow> \<not> fail s'"
    assume "(case p s of None \<Rightarrow> None | Some (Throw s1) \<Rightarrow> Some (Throw s1)
      | Some (Return t s1) \<Rightarrow>
          if fail s1 then Some (Return c (clear s1)) else g p (c @ [t]) s1) = Some y"
    then show "\<forall>r s'. y = Return r s' \<longrightarrow> \<not> fail s'"
      using IH
      by (auto simp add: fail_def clear_def split: option.splits result.splits if_splits)
  qed
  with assms show ?thesis
    by blast
qed

lemma many_void_step:
  "p s = Some (Return t s1) \<Longrightarrow> \<not> fail s1 \<Longrightarrow> parser_many_void p s = parser_many_void p s1"
  by (subst parser_many_void.simps) simp

lemma many_void_successes:
  "successes p n s = Some (ts, sn) \<Longrightarrow> parser_many_void p s = parser_many_void p sn"
proof (induction n arbitrary: s ts)
  case 0
  then show ?case by simp
next
  case (Suc n)
  from successes_Suc [OF Suc.prems] obtain t s1 ts' where
    step: "p s = Some (Return t s1)" "\<not> fail s1" and
    rest: "successes p n s1 = Some (ts', sn)"
    by blast
  have "parser_many_void p s = parser_many_void p s1"
    using step by (rule many_void_step)
  also have "\<dots> = parser_many_void p sn"
    using rest by (rule Suc.IH)
  finally show ?case .
qed

lemma many_void_unfailed:
  assumes "parser_many_void p s = Some (Return r s')"
  shows "\<not> fail s'"
proof -
  have "\<forall>r s'. y = Return r s' \<longrightarrow> \<not> fail s'" if "parser_many_void p s = Some y" for y
  proof (rule parser_many_void.raw_induct
      [where P = "\<lambda>p s y. \<forall>r s'. y = Return r s' \<longrightarrow> \<not> fail s'"])
    show "parser_many_void p s = Some y"
      by (fact that)
  next
    fix g :: "unit parser \<Rightarrow> stream \<Rightarrow> unit result option"
    fix p s y
    assume IH: "\<And>p s y. g p s = Some y \<Longrightarrow> \<forall>r s'. y = Return r s' \<longrightarrow> \<not> fail s'"
    assume "(case p s of None \<Rightarrow> None | Some (Throw s1) \<Rightarrow> Some (Throw s1)
      | Some (Return u s1) \<Rightarrow>
          if \<not> fail s1 then g p s1 else Some (Return () (clear s1))) = Some y"
    then show "\<forall>r s'. y = Return r s' \<longrightarrow> \<not> fail s'"
      using IH
      by (auto simp add: fail_def clear_def split: option.splits result.splits if_splits)
  qed
  with assms show ?thesis
    by blast
qed

text \<open>
  The loop need not end: \<^verbatim>\<open>eof()\<close> succeeds at the end of the input without consuming, so
  \<^verbatim>\<open>many(eof())\<close> on the empty input never returns.
\<close>

lemma many_eof_never_returns:
  "parser_many_void eof (open_stream '''') = None"
proof -
  let ?e = "(open_stream '''')\<lparr>eofbit := True\<rparr>"
  have step0: "eof (open_stream '''') = Some (Return () ?e)"
    by code_simp
  have step: "eof ?e = Some (Return () ?e)"
    by code_simp
  have unfailed: "\<not> fail ?e"
    by (simp add: fail_def open_stream_def)
  have no: "\<not> (p = eof \<and> s = ?e)" if "parser_many_void p s = Some y" for p s y
  proof (rule parser_many_void.raw_induct [where P = "\<lambda>p s y. \<not> (p = eof \<and> s = ?e)"])
    show "parser_many_void p s = Some y"
      by (fact that)
  next
    fix g :: "unit parser \<Rightarrow> stream \<Rightarrow> unit result option"
    fix p s y
    assume IH: "\<And>p s y. g p s = Some y \<Longrightarrow> \<not> (p = eof \<and> s = ?e)"
    assume run: "(case p s of None \<Rightarrow> None | Some (Throw s1) \<Rightarrow> Some (Throw s1)
      | Some (Return u s1) \<Rightarrow>
          if \<not> fail s1 then g p s1 else Some (Return () (clear s1))) = Some y"
    show "\<not> (p = eof \<and> s = ?e)"
    proof
      assume "p = eof \<and> s = ?e"
      with run step unfailed have "g eof ?e = Some y"
        by simp
      with IH show False
        by blast
    qed
  qed
  have "parser_many_void eof ?e = None"
  proof (cases "parser_many_void eof ?e")
    case None
    then show ?thesis .
  next
    case (Some y)
    with no [of eof ?e y] show ?thesis
      by simp
  qed
  moreover have "parser_many_void eof (open_stream '''') = parser_many_void eof ?e"
    using step0 unfailed by (subst parser_many_void.simps) simp
  ultimately show ?thesis
    by simp
qed


text \<open>
  C4 (as the code has it). Let the first \<open>n\<close> applications of \<open>p\<close> succeed. If the next
  application returns with the failure flag set - without consumption or after it - then
  \<^verbatim>\<open>many(p)\<close> clears the flag and returns the \<open>n\<close> results collected so far, as a success. If
  the next application throws \<^verbatim>\<open>ParserError\<close>, which is how the library's parsers report a
  failure after consumption, \<^verbatim>\<open>many(p)\<close> does not catch it: the throw leaves \<^verbatim>\<open>many(p)\<close> with the
  stream as it is. Whenever \<^verbatim>\<open>many(p)\<close> returns, the stream is unfailed. The same holds for
  \<^verbatim>\<open>parser_many<void>\<close>.
\<close>

theorem many_outcome:
  "(successes p n s = Some (ts, sn) \<and> p sn = Some (Return t s') \<and> fail s' \<longrightarrow>
      parser_many p s = Some (Return ts (clear s')))
   \<and> (successes p n s = Some (ts, sn) \<and> p sn = Some (Throw s') \<longrightarrow>
      parser_many p s = Some (Throw s'))
   \<and> (parser_many p s = Some (Return c s'') \<longrightarrow> \<not> fail s'')
   \<and> (successes pv n s = Some (us, sn) \<and> pv sn = Some (Return u s') \<and> fail s' \<longrightarrow>
      parser_many_void pv s = Some (Return () (clear s')))
   \<and> (successes pv n s = Some (us, sn) \<and> pv sn = Some (Throw s') \<longrightarrow>
      parser_many_void pv s = Some (Throw s'))
   \<and> (parser_many_void pv s = Some (Return u' s'') \<longrightarrow> \<not> fail s'')"
proof -
  have flag: "parser_many p s = Some (Return ts (clear s'))"
    if "successes p n s = Some (ts, sn)" "p sn = Some (Return t s')" "fail s'"
  proof -
    have "parser_many p s = many_loop p ts sn"
      using many_loop_successes [OF that(1), of "[]"] by (simp add: parser_many_def)
    also have "\<dots> = Some (Return ts (clear s'))"
      using that(2,3) by (subst many_loop.simps) simp
    finally show ?thesis .
  qed
  have thrown: "parser_many p s = Some (Throw s')"
    if "successes p n s = Some (ts, sn)" "p sn = Some (Throw s')"
  proof -
    have "parser_many p s = many_loop p ts sn"
      using many_loop_successes [OF that(1), of "[]"] by (simp add: parser_many_def)
    also have "\<dots> = Some (Throw s')"
      using that(2) by (subst many_loop.simps) simp
    finally show ?thesis .
  qed
  have unfailed: "\<not> fail s''" if "parser_many p s = Some (Return c s'')"
    using that many_loop_unfailed [of p "[]" s c s''] by (simp add: parser_many_def)
  have vflag: "parser_many_void pv s = Some (Return () (clear s'))"
    if "successes pv n s = Some (us, sn)" "pv sn = Some (Return u s')" "fail s'"
  proof -
    have "parser_many_void pv s = parser_many_void pv sn"
      using that(1) by (rule many_void_successes)
    also have "\<dots> = Some (Return () (clear s'))"
      using that(2,3) by (subst parser_many_void.simps) simp
    finally show ?thesis .
  qed
  have vthrown: "parser_many_void pv s = Some (Throw s')"
    if "successes pv n s = Some (us, sn)" "pv sn = Some (Throw s')"
  proof -
    have "parser_many_void pv s = parser_many_void pv sn"
      using that(1) by (rule many_void_successes)
    also have "\<dots> = Some (Throw s')"
      using that(2) by (subst parser_many_void.simps) simp
    finally show ?thesis .
  qed
  have vunfailed: "\<not> fail s''" if "parser_many_void pv s = Some (Return u' s'')"
    using that by (rule many_void_unfailed)
  from flag thrown unfailed vflag vthrown vunfailed show ?thesis
    by blast
qed


text \<open>
  \<^verbatim>\<open>many(p)\<close> does fail: on \<^verbatim>\<open>"ac"\<close> the parser \<^verbatim>\<open>chr('a') > chr('b')\<close> consumes \<^verbatim>\<open>'a'\<close> and throws,
  and \<^verbatim>\<open>many(chr('a') > chr('b'))\<close> ends with that \<^verbatim>\<open>ParserError\<close>; likewise \<^verbatim>\<open>many(skip("ab"))\<close>
  on \<^verbatim>\<open>"abac"\<close>, after one successful round.
\<close>

theorem many_throw_counterexample:
  "parser_many (parser_seq (chr (CHR ''a'')) (chr (CHR ''b''))) (open_stream ''ac'')
     = Some (Throw ((open_stream ''ac'')\<lparr>rd := 1, failbit := True,
         pos := \<lparr>off = 1, row = 1, col = 2\<rparr>, lastc := CHR ''a''\<rparr>))
   \<and> parser_many_void (parser_str ''ab'') (open_stream ''abac'')
     = Some (Throw ((open_stream ''abac'')\<lparr>rd := 3, failbit := True,
         pos := \<lparr>off = 3, row = 1, col = 4\<rparr>, lastc := CHR ''a''\<rparr>))"
  by code_simp

text \<open>
  On \<^verbatim>\<open>"12a"\<close>, \<^verbatim>\<open>digit\<close> succeeds twice and then fails on \<^verbatim>\<open>'a'\<close>: \<^verbatim>\<open>many(digit)\<close> returns
  \<^verbatim>\<open>"12"\<close> with the flag cleared. On \<^verbatim>\<open>"abac"\<close>, \<^verbatim>\<open>skip("ab")\<close> succeeds once and then throws.
\<close>

theorem many_outcome_witness:
  "successes digit 2 (open_stream ''12a'')
     = Some (''12'', (open_stream ''12a'')\<lparr>rd := 2, pos := \<lparr>off = 2, row = 1, col = 3\<rparr>,
         lastc := CHR ''2''\<rparr>)
   \<and> digit ((open_stream ''12a'')\<lparr>rd := 2, pos := \<lparr>off = 2, row = 1, col = 3\<rparr>,
         lastc := CHR ''2''\<rparr>)
     = Some (Return default ((open_stream ''12a'')\<lparr>rd := 2, failbit := True,
         pos := \<lparr>off = 2, row = 1, col = 3\<rparr>, lastc := CHR ''2''\<rparr>))
   \<and> parser_many digit (open_stream ''12a'')
     = Some (Return ''12'' ((open_stream ''12a'')\<lparr>rd := 2,
         pos := \<lparr>off = 2, row = 1, col = 3\<rparr>, lastc := CHR ''2''\<rparr>))
   \<and> successes (parser_str ''ab'') 1 (open_stream ''abac'')
     = Some ([()], (open_stream ''abac'')\<lparr>rd := 2, pos := \<lparr>off = 2, row = 1, col = 3\<rparr>,
         lastc := CHR ''b''\<rparr>)
   \<and> parser_str ''ab'' ((open_stream ''abac'')\<lparr>rd := 2,
         pos := \<lparr>off = 2, row = 1, col = 3\<rparr>, lastc := CHR ''b''\<rparr>)
     = Some (Throw ((open_stream ''abac'')\<lparr>rd := 3, failbit := True,
         pos := \<lparr>off = 3, row = 1, col = 4\<rparr>, lastc := CHR ''a''\<rparr>))
   \<and> parser_many_void (parser_str ''ab'') (open_stream ''abac'')
     = Some (Throw ((open_stream ''abac'')\<lparr>rd := 3, failbit := True,
         pos := \<lparr>off = 3, row = 1, col = 4\<rparr>, lastc := CHR ''a''\<rparr>))"
proof -
  let ?s2 = "(open_stream ''12a'')\<lparr>rd := 2, pos := \<lparr>off = 2, row = 1, col = 3\<rparr>,
         lastc := CHR ''2''\<rparr>"
  let ?s3 = "(open_stream ''12a'')\<lparr>rd := 2, failbit := True,
         pos := \<lparr>off = 2, row = 1, col = 3\<rparr>, lastc := CHR ''2''\<rparr>"
  let ?v2 = "(open_stream ''abac'')\<lparr>rd := 2, pos := \<lparr>off = 2, row = 1, col = 3\<rparr>,
         lastc := CHR ''b''\<rparr>"
  let ?v3 = "(open_stream ''abac'')\<lparr>rd := 3, failbit := True,
         pos := \<lparr>off = 3, row = 1, col = 4\<rparr>, lastc := CHR ''a''\<rparr>"
  have a: "successes digit 2 (open_stream ''12a'') = Some (''12'', ?s2)"
    by code_simp
  have b: "digit ?s2 = Some (Return default ?s3)"
    by code_simp
  have c: "fail ?s3"
    by (simp add: fail_def)
  have d: "clear ?s3 = ?s2"
    by (simp add: clear_def open_stream_def)
  have e: "successes (parser_str ''ab'') 1 (open_stream ''abac'') = Some ([()], ?v2)"
    by code_simp
  have f: "parser_str ''ab'' ?v2 = Some (Throw ?v3)"
    by code_simp
  have "parser_many digit (open_stream ''12a'') = Some (Return ''12'' (clear ?s3))"
    by (rule many_outcome [of digit 2 "open_stream ''12a''" "''12''" ?s2 default ?s3,
          THEN conjunct1, THEN mp]) (intro conjI a b c)
  with d have g: "parser_many digit (open_stream ''12a'') = Some (Return ''12'' ?s2)"
    by simp
  have h: "parser_many_void (parser_str ''ab'') (open_stream ''abac'') = Some (Throw ?v3)"
    by (rule many_outcome [where pv = "parser_str ''ab''" and n = 1
          and s = "open_stream ''abac''" and us = "[()]" and sn = ?v2 and s' = ?v3,
          THEN conjunct2, THEN conjunct2, THEN conjunct2, THEN conjunct2, THEN conjunct1,
          THEN mp]) (intro conjI e f)
  from a b g e f h show ?thesis
    by (intro conjI)
qed

text \<open>
  C7. If the application of \<open>p\<close> to the stream returns failed with the offset unchanged, then
  \<^verbatim>\<open>many(p)\<close> succeeds with the empty collection, the stream being the one \<open>p\<close> left with the
  state bits cleared: unfailed and with the offset unchanged. The other zero-or-more
  repetitions do the same: \<^verbatim>\<open>parser_many<void>\<close>, and \<^verbatim>\<open>sep_by\<close> in both forms, succeed with the
  empty or void result. For a character parser on a good stream the stream returned is exactly
  the stream at entry.
\<close>

theorem many_zero_matches:
  "fail s1 \<Longrightarrow> tellg s1 (off (pos s)) = 0 \<Longrightarrow>
     (p s = Some (Return t s1) \<longrightarrow> parser_many p s = Some (Return [] (clear s1)))
     \<and> (pv s = Some (Return u s1) \<longrightarrow> parser_many_void pv s = Some (Return () (clear s1)))
     \<and> (p s = Some (Return t s1) \<longrightarrow> parser_sep_by p q s = Some (Return [] (clear s1)))
     \<and> (pv s = Some (Return u s1) \<longrightarrow> parser_sep_by_void pv q s = Some (Return () (clear s1)))
     \<and> \<not> fail (clear s1) \<and> tellg (clear s1) (off (pos s)) = 0
     \<and> (good s \<and> parser_match m s = Some (Return ch s1) \<longrightarrow>
          parser_many (parser_match m) s = Some (Return [] s))"
proof -
  assume failed: "fail s1" and zero: "tellg s1 (off (pos s)) = 0"
  have loop: "many_loop r [] s = Some (Return [] (clear s1))" if "r s = Some (Return x s1)" for r x
    using that failed by (subst many_loop.simps) simp
  have many: "p s = Some (Return t s1) \<longrightarrow> parser_many p s = Some (Return [] (clear s1))"
    using loop [of p t] by (simp add: parser_many_def)
  have many_void:
    "pv s = Some (Return u s1) \<longrightarrow> parser_many_void pv s = Some (Return () (clear s1))"
    using failed by (subst parser_many_void.simps) simp
  have sep_by: "p s = Some (Return t s1) \<longrightarrow> parser_sep_by p q s = Some (Return [] (clear s1))"
    using failed by (simp add: parser_sep_by_def)
  have sep_by_void:
    "pv s = Some (Return u s1) \<longrightarrow> parser_sep_by_void pv q s = Some (Return () (clear s1))"
    using failed by (simp add: parser_sep_by_void_def)
  have cleared: "\<not> fail (clear s1)" "tellg (clear s1) (off (pos s)) = 0"
    using zero by (simp_all add: fail_def clear_def tellg_def)
  have leaf: "good s \<and> parser_match m s = Some (Return ch s1) \<longrightarrow>
      parser_many (parser_match m) s = Some (Return [] s)"
  proof
    assume h: "good s \<and> parser_match m s = Some (Return ch s1)"
    then have "clear s1 = s"
      using match_weak_failure [of s m ch s1] failed zero by simp
    with h loop [of "parser_match m" ch] show "parser_many (parser_match m) s = Some (Return [] s)"
      by (simp add: parser_many_def)
  qed
  show ?thesis
    by (intro conjI many many_void sep_by sep_by_void cleared leaf)
qed

text \<open>\<^verbatim>\<open>many(digit)\<close> on the empty input: the empty string and the stream untouched.\<close>

theorem many_zero_matches_witness:
  "digit (open_stream '''')
     = Some (Return default ((open_stream '''')\<lparr>failbit := True, eofbit := True\<rparr>))
   \<and> fail ((open_stream '''')\<lparr>failbit := True, eofbit := True\<rparr>)
   \<and> tellg ((open_stream '''')\<lparr>failbit := True, eofbit := True\<rparr>)
        (off (pos (open_stream ''''))) = 0
   \<and> good (open_stream '''')
   \<and> parser_many digit (open_stream '''') = Some (Return [] (open_stream ''''))"
proof -
  let ?s = "open_stream ''''"
  let ?s1 = "?s\<lparr>failbit := True, eofbit := True\<rparr>"
  have a: "digit ?s = Some (Return default ?s1)"
    by code_simp
  have a': "parser_match (\<lambda>ch. isdigit (int_of_char ch)) ?s = Some (Return default ?s1)"
    using a by (simp add: digit_def parser_fmatch_def)
  have b: "fail ?s1"
    by (simp add: fail_def)
  have c: "tellg ?s1 (off (pos ?s)) = 0"
    by (simp add: tellg_def)
  have d: "good ?s"
    by (simp add: good_def open_stream_def)
  have "parser_many (parser_match (\<lambda>ch. isdigit (int_of_char ch))) ?s = Some (Return [] ?s)"
    by (rule many_zero_matches [OF b c, where m = "\<lambda>ch. isdigit (int_of_char ch)"
          and ch = default, THEN conjunct2, THEN conjunct2, THEN conjunct2, THEN conjunct2,
          THEN conjunct2, THEN conjunct2, THEN mp]) (intro conjI d a')
  then have e: "parser_many digit ?s = Some (Return [] ?s)"
    by (simp add: digit_def parser_fmatch_def)
  from a b c d e show ?thesis
    by (intro conjI)
qed


section \<open>One or more: \<^verbatim>\<open>many1\<close>\<close>

text \<open>The loop of \<^verbatim>\<open>many1\<close> after \<open>n\<close> further successes, and what it can return.\<close>

lemma many1_loop_step:
  "p s = Some (Return t s1) \<Longrightarrow> \<not> fail s1 \<Longrightarrow> many1_loop p f c s = many1_loop p f (f c t) s1"
  by (subst many1_loop.simps) simp

lemma many1_loop_successes:
  "successes p n s = Some (ts, sn) \<Longrightarrow> many1_loop p f c s = many1_loop p f (foldl f c ts) sn"
proof (induction n arbitrary: s c ts)
  case 0
  then show ?case by simp
next
  case (Suc n)
  from successes_Suc [OF Suc.prems] obtain t s1 ts' where
    step: "p s = Some (Return t s1)" "\<not> fail s1" and
    rest: "successes p n s1 = Some (ts', sn)" and ts: "ts = t # ts'"
    by blast
  have "many1_loop p f c s = many1_loop p f (f c t) s1"
    using step by (rule many1_loop_step)
  also have "\<dots> = many1_loop p f (foldl f (f c t) ts') sn"
    using rest by (rule Suc.IH)
  finally show ?case
    by (simp add: ts)
qed

lemma many1_loop_unfailed:
  assumes "many1_loop p f c s = Some (Return r s')"
  shows "\<not> fail s'"
proof -
  have "\<forall>r s'. y = Return r s' \<longrightarrow> \<not> fail s'" if "many1_loop p f c s = Some y" for y
  proof (rule many1_loop.raw_induct
      [where P = "\<lambda>p f c s y. \<forall>r s'. y = Return r s' \<longrightarrow> \<not> fail s'"])
    show "many1_loop p f c s = Some y"
      by (fact that)
  next
    fix g :: "'a parser \<Rightarrow> ('a \<Rightarrow> 'a \<Rightarrow> 'a) \<Rightarrow> 'a \<Rightarrow> stream \<Rightarrow> 'a result option"
    fix p f c s y
    assume IH: "\<And>p f c s y. g p f c s = Some y \<Longrightarrow> \<forall>r s'. y = Return r s' \<longrightarrow> \<not> fail s'"
    assume "(case p s of None \<Rightarrow> None | Some (Throw s1) \<Rightarrow> Some (Throw s1)
      | Some (Return t s1) \<Rightarrow>
          if fail s1 then Some (Return c (clear s1)) else g p f (f c t) s1) = Some y"
    then show "\<forall>r s'. y = Return r s' \<longrightarrow> \<not> fail s'"
      using IH
      by (auto simp add: fail_def clear_def split: option.splits result.splits if_splits)
  qed
  with assms show ?thesis
    by blast
qed

text \<open>
  C5 (as the code has it). If the first application of \<open>p\<close> returns failed, \<^verbatim>\<open>many1(p, f)\<close>
  returns that same outcome, value and stream, the flag left set; if it throws, the throw
  propagates: the first failure keeps its tier. After a first success and \<open>n\<close> further
  successes, an application of \<open>p\<close> that returns failed ends the repetition: the flag is
  cleared and the results folded with \<open>f\<close> are returned as a success; an application that
  throws \<^verbatim>\<open>ParserError\<close> is not absorbed, the throw leaves \<^verbatim>\<open>many1\<close>. Whenever \<^verbatim>\<open>many1\<close> returns
  with the failure flag set, its outcome is that of the first application of \<open>p\<close>. The same
  holds for \<^verbatim>\<open>parser_many1<void>\<close>.
\<close>

theorem many1_outcome:
  "(p s = Some (Return c s1) \<and> fail s1 \<longrightarrow> parser_many1 p f s = Some (Return c s1))
   \<and> (p s = Some (Throw s1) \<longrightarrow> parser_many1 p f s = Some (Throw s1))
   \<and> (p s = Some (Return c s1) \<and> \<not> fail s1 \<and> successes p n s1 = Some (ts, sn)
        \<and> p sn = Some (Return t s') \<and> fail s' \<longrightarrow>
      parser_many1 p f s = Some (Return (foldl f c ts) (clear s')))
   \<and> (p s = Some (Return c s1) \<and> \<not> fail s1 \<and> successes p n s1 = Some (ts, sn)
        \<and> p sn = Some (Throw s') \<longrightarrow>
      parser_many1 p f s = Some (Throw s'))
   \<and> (parser_many1 p f s = Some (Return v s'') \<and> fail s'' \<longrightarrow> p s = Some (Return v s''))
   \<and> (pv s = Some (Return u s1) \<and> fail s1 \<longrightarrow> parser_many1_void pv s = Some (Return () s1))
   \<and> (pv s = Some (Throw s1) \<longrightarrow> parser_many1_void pv s = Some (Throw s1))
   \<and> (pv s = Some (Return u s1) \<and> \<not> fail s1 \<and> successes pv n s1 = Some (us, sn)
        \<and> pv sn = Some (Return u' s') \<and> fail s' \<longrightarrow>
      parser_many1_void pv s = Some (Return () (clear s')))
   \<and> (pv s = Some (Return u s1) \<and> \<not> fail s1 \<and> successes pv n s1 = Some (us, sn)
        \<and> pv sn = Some (Throw s') \<longrightarrow>
      parser_many1_void pv s = Some (Throw s'))
   \<and> (parser_many1_void pv s = Some (Return w s'') \<and> fail s'' \<longrightarrow>
        pv s = Some (Return w s''))"
proof -
  have first: "p s = Some (Return c s1) \<and> fail s1 \<longrightarrow> parser_many1 p f s = Some (Return c s1)"
    by (simp add: parser_many1_def)
  have first_throw: "p s = Some (Throw s1) \<longrightarrow> parser_many1 p f s = Some (Throw s1)"
    by (simp add: parser_many1_def)
  have later: "p s = Some (Return c s1) \<and> \<not> fail s1 \<and> successes p n s1 = Some (ts, sn)
        \<and> p sn = Some (Return t s') \<and> fail s' \<longrightarrow>
      parser_many1 p f s = Some (Return (foldl f c ts) (clear s'))"
  proof
    assume h: "p s = Some (Return c s1) \<and> \<not> fail s1 \<and> successes p n s1 = Some (ts, sn)
        \<and> p sn = Some (Return t s') \<and> fail s'"
    then have "parser_many1 p f s = many1_loop p f c s1"
      by (simp add: parser_many1_def)
    also have "\<dots> = many1_loop p f (foldl f c ts) sn"
      using h many1_loop_successes [of p n s1 ts sn f c] by blast
    also have "\<dots> = Some (Return (foldl f c ts) (clear s'))"
      using h by (subst many1_loop.simps) simp
    finally show "parser_many1 p f s = Some (Return (foldl f c ts) (clear s'))" .
  qed
  have later_throw: "p s = Some (Return c s1) \<and> \<not> fail s1 \<and> successes p n s1 = Some (ts, sn)
        \<and> p sn = Some (Throw s') \<longrightarrow> parser_many1 p f s = Some (Throw s')"
  proof
    assume h: "p s = Some (Return c s1) \<and> \<not> fail s1 \<and> successes p n s1 = Some (ts, sn)
        \<and> p sn = Some (Throw s')"
    then have "parser_many1 p f s = many1_loop p f c s1"
      by (simp add: parser_many1_def)
    also have "\<dots> = many1_loop p f (foldl f c ts) sn"
      using h many1_loop_successes [of p n s1 ts sn f c] by blast
    also have "\<dots> = Some (Throw s')"
      using h by (subst many1_loop.simps) simp
    finally show "parser_many1 p f s = Some (Throw s')" .
  qed
  have only_first: "parser_many1 p f s = Some (Return v s'') \<and> fail s'' \<longrightarrow>
      p s = Some (Return v s'')"
    using many1_loop_unfailed [of p f _ _ v s'']
    by (auto simp add: parser_many1_def split: option.splits result.splits if_splits)
  have vfirst: "pv s = Some (Return u s1) \<and> fail s1 \<longrightarrow>
      parser_many1_void pv s = Some (Return () s1)"
    by (simp add: parser_many1_void_def)
  have vfirst_throw: "pv s = Some (Throw s1) \<longrightarrow> parser_many1_void pv s = Some (Throw s1)"
    by (simp add: parser_many1_void_def)
  have vlater: "pv s = Some (Return u s1) \<and> \<not> fail s1 \<and> successes pv n s1 = Some (us, sn)
        \<and> pv sn = Some (Return u' s') \<and> fail s' \<longrightarrow>
      parser_many1_void pv s = Some (Return () (clear s'))"
  proof
    assume h: "pv s = Some (Return u s1) \<and> \<not> fail s1 \<and> successes pv n s1 = Some (us, sn)
        \<and> pv sn = Some (Return u' s') \<and> fail s'"
    then have "parser_many1_void pv s = parser_many_void pv s1"
      by (simp add: parser_many1_void_def)
    also have "\<dots> = parser_many_void pv sn"
      using h many_void_successes [of pv n s1 us sn] by blast
    also have "\<dots> = Some (Return () (clear s'))"
      using h by (subst parser_many_void.simps) simp
    finally show "parser_many1_void pv s = Some (Return () (clear s'))" .
  qed
  have vlater_throw: "pv s = Some (Return u s1) \<and> \<not> fail s1
        \<and> successes pv n s1 = Some (us, sn) \<and> pv sn = Some (Throw s') \<longrightarrow>
      parser_many1_void pv s = Some (Throw s')"
  proof
    assume h: "pv s = Some (Return u s1) \<and> \<not> fail s1 \<and> successes pv n s1 = Some (us, sn)
        \<and> pv sn = Some (Throw s')"
    then have "parser_many1_void pv s = parser_many_void pv s1"
      by (simp add: parser_many1_void_def)
    also have "\<dots> = parser_many_void pv sn"
      using h many_void_successes [of pv n s1 us sn] by blast
    also have "\<dots> = Some (Throw s')"
      using h by (subst parser_many_void.simps) simp
    finally show "parser_many1_void pv s = Some (Throw s')" .
  qed
  have vonly_first: "parser_many1_void pv s = Some (Return w s'') \<and> fail s'' \<longrightarrow>
      pv s = Some (Return w s'')"
    using many_void_unfailed [of pv _ w s'']
    by (auto simp add: parser_many1_void_def split: option.splits result.splits if_splits)
  show ?thesis
    by (intro conjI first first_throw later later_throw only_first vfirst vfirst_throw vlater
        vlater_throw vonly_first)
qed

text \<open>
  \<^verbatim>\<open>many1\<close> can fail although the first application of \<open>p\<close> succeeds: on \<^verbatim>\<open>"abac"\<close> the string
  parser \<^verbatim>\<open>chr('a') + chr('b')\<close> succeeds once, its second application consumes \<^verbatim>\<open>'a'\<close> and
  throws, and \<^verbatim>\<open>many1\<close> of it ends with that \<^verbatim>\<open>ParserError\<close>; likewise \<^verbatim>\<open>many1(skip("ab"))\<close>.
\<close>

theorem many1_later_throw_counterexample:
  "parser_cat (parser_map (chr (CHR ''a'')) char_to_string)
       (parser_map (chr (CHR ''b'')) char_to_string) (open_stream ''abac'')
     = Some (Return ''ab'' ((open_stream ''abac'')\<lparr>rd := 2,
         pos := \<lparr>off = 2, row = 1, col = 3\<rparr>, lastc := CHR ''b''\<rparr>))
   \<and> parser_many1 (parser_cat (parser_map (chr (CHR ''a'')) char_to_string)
       (parser_map (chr (CHR ''b'')) char_to_string)) (@) (open_stream ''abac'')
     = Some (Throw ((open_stream ''abac'')\<lparr>rd := 3, failbit := True,
         pos := \<lparr>off = 3, row = 1, col = 4\<rparr>, lastc := CHR ''a''\<rparr>))
   \<and> parser_str ''ab'' (open_stream ''abac'')
     = Some (Return () ((open_stream ''abac'')\<lparr>rd := 2,
         pos := \<lparr>off = 2, row = 1, col = 3\<rparr>, lastc := CHR ''b''\<rparr>))
   \<and> parser_many1_void (parser_str ''ab'') (open_stream ''abac'')
     = Some (Throw ((open_stream ''abac'')\<lparr>rd := 3, failbit := True,
         pos := \<lparr>off = 3, row = 1, col = 4\<rparr>, lastc := CHR ''a''\<rparr>))"
  by code_simp


text \<open>
  With \<^verbatim>\<open>+digit()\<close> and string concatenation as the combiner: on \<^verbatim>\<open>"a"\<close> the first application
  fails weakly and so does \<^verbatim>\<open>many1\<close>; on \<^verbatim>\<open>"12a"\<close> the result is \<^verbatim>\<open>"12"\<close>; on \<^verbatim>\<open>"abac"\<close> the
  second application of \<^verbatim>\<open>chr('a') + chr('b')\<close> throws.
\<close>

theorem many1_outcome_witness:
  "parser_map digit char_to_string (open_stream ''a'')
     = Some (Return [] ((open_stream ''a'')\<lparr>failbit := True\<rparr>))
   \<and> parser_many1 (parser_map digit char_to_string) (@) (open_stream ''a'')
     = Some (Return [] ((open_stream ''a'')\<lparr>failbit := True\<rparr>))
   \<and> parser_many1 (parser_map digit char_to_string) (@) (open_stream ''12a'')
     = Some (Return ''12'' ((open_stream ''12a'')\<lparr>rd := 2,
         pos := \<lparr>off = 2, row = 1, col = 3\<rparr>, lastc := CHR ''2''\<rparr>))
   \<and> parser_many1 (parser_cat (parser_map (chr (CHR ''a'')) char_to_string)
       (parser_map (chr (CHR ''b'')) char_to_string)) (@) (open_stream ''abac'')
     = Some (Throw ((open_stream ''abac'')\<lparr>rd := 3, failbit := True,
         pos := \<lparr>off = 3, row = 1, col = 4\<rparr>, lastc := CHR ''a''\<rparr>))"
proof -
  let ?pd = "parser_map digit char_to_string"
  let ?pab = "parser_cat (parser_map (chr (CHR ''a'')) char_to_string)
       (parser_map (chr (CHR ''b'')) char_to_string)"
  let ?a = "open_stream ''a''"
  let ?d = "open_stream ''12a''"
  let ?d1 = "?d\<lparr>rd := 1, pos := \<lparr>off = 1, row = 1, col = 2\<rparr>, lastc := CHR ''1''\<rparr>"
  let ?d2 = "?d\<lparr>rd := 2, pos := \<lparr>off = 2, row = 1, col = 3\<rparr>, lastc := CHR ''2''\<rparr>"
  let ?d3 = "?d\<lparr>rd := 2, failbit := True, pos := \<lparr>off = 2, row = 1, col = 3\<rparr>,
      lastc := CHR ''2''\<rparr>"
  let ?v = "open_stream ''abac''"
  let ?v2 = "?v\<lparr>rd := 2, pos := \<lparr>off = 2, row = 1, col = 3\<rparr>, lastc := CHR ''b''\<rparr>"
  let ?v3 = "?v\<lparr>rd := 3, failbit := True, pos := \<lparr>off = 3, row = 1, col = 4\<rparr>,
      lastc := CHR ''a''\<rparr>"
  have a1: "?pd ?a = Some (Return [] (?a\<lparr>failbit := True\<rparr>))"
    by code_simp
  have a2: "fail (?a\<lparr>failbit := True\<rparr>)"
    by (simp add: fail_def)
  have a: "parser_many1 ?pd (@) ?a = Some (Return [] (?a\<lparr>failbit := True\<rparr>))"
    by (rule many1_outcome [of ?pd ?a "[]" "?a\<lparr>failbit := True\<rparr>" "(@)",
          THEN conjunct1, THEN mp]) (intro conjI a1 a2)
  have b1: "?pd ?d = Some (Return ''1'' ?d1)"
    by code_simp
  have b2: "\<not> fail ?d1"
    by (simp add: fail_def open_stream_def)
  have b3: "successes ?pd 1 ?d1 = Some ([''2''], ?d2)"
    by code_simp
  have b4: "?pd ?d2 = Some (Return [] ?d3)"
    by code_simp
  have b5: "fail ?d3"
    by (simp add: fail_def)
  have b6: "clear ?d3 = ?d2"
    by (simp add: clear_def open_stream_def)
  have "parser_many1 ?pd (@) ?d = Some (Return (foldl (@) ''1'' [''2'']) (clear ?d3))"
    by (rule many1_outcome [of ?pd ?d "''1''" ?d1 "(@)" 1 "[''2'']" ?d2 "[]" ?d3,
          THEN conjunct2, THEN conjunct2, THEN conjunct1, THEN mp])
      (intro conjI b1 b2 b3 b4 b5)
  then have b: "parser_many1 ?pd (@) ?d = Some (Return ''12'' ?d2)"
    by (simp add: b6)
  have c1: "?pab ?v = Some (Return ''ab'' ?v2)"
    by code_simp
  have c2: "\<not> fail ?v2"
    by (simp add: fail_def open_stream_def)
  have c3: "successes ?pab 0 ?v2 = Some ([], ?v2)"
    by simp
  have c4: "?pab ?v2 = Some (Throw ?v3)"
    by code_simp
  have c: "parser_many1 ?pab (@) ?v = Some (Throw ?v3)"
    by (rule many1_outcome [of ?pab ?v "''ab''" ?v2 "(@)" 0 "[]" ?v2 _ ?v3,
          THEN conjunct2, THEN conjunct2, THEN conjunct2, THEN conjunct1, THEN mp])
      (intro conjI c1 c2 c3 c4)
  from a1 a b c show ?thesis
    by (intro conjI)
qed


section \<open>Separated lists: \<^verbatim>\<open>sep_by\<close>\<close>

text \<open>The loop of \<^verbatim>\<open>sep_by\<close> after \<open>n\<close> successful rounds of separator and element.\<close>

lemma rounds_Suc:
  "rounds q p (Suc n) s = Some (ts, sn) \<Longrightarrow>
     \<exists>u s1 t s2 ts'. q s = Some (Return u s1) \<and> \<not> fail s1 \<and> p s1 = Some (Return t s2)
       \<and> \<not> fail s2 \<and> rounds q p n s2 = Some (ts', sn) \<and> ts = t # ts'"
  by (auto split: option.splits result.splits if_splits)

lemma sep_by_loop_step:
  "q s = Some (Return u s1) \<Longrightarrow> \<not> fail s1 \<Longrightarrow> p s1 = Some (Return t s2) \<Longrightarrow> \<not> fail s2
     \<Longrightarrow> sep_by_loop p q off0 c s = sep_by_loop p q off0 (c @ [t]) s2"
  by (subst sep_by_loop.simps) simp

lemma sep_by_loop_rounds:
  "rounds q p n s = Some (ts, sn) \<Longrightarrow> sep_by_loop p q off0 c s = sep_by_loop p q off0 (c @ ts) sn"
proof (induction n arbitrary: s c ts)
  case 0
  then show ?case by simp
next
  case (Suc n)
  from rounds_Suc [OF Suc.prems] obtain u s1 t s2 ts' where
    step: "q s = Some (Return u s1)" "\<not> fail s1" "p s1 = Some (Return t s2)" "\<not> fail s2" and
    rest: "rounds q p n s2 = Some (ts', sn)" and ts: "ts = t # ts'"
    by blast
  have "sep_by_loop p q off0 c s = sep_by_loop p q off0 (c @ [t]) s2"
    using step by (rule sep_by_loop_step)
  also have "\<dots> = sep_by_loop p q off0 ((c @ [t]) @ ts') sn"
    using rest by (rule Suc.IH)
  finally show ?case
    by (simp add: ts)
qed

lemma sep_by_void_loop_step:
  "q s = Some (Return u s1) \<Longrightarrow> \<not> fail s1 \<Longrightarrow> p s1 = Some (Return t s2) \<Longrightarrow> \<not> fail s2
     \<Longrightarrow> sep_by_void_loop p q off0 s = sep_by_void_loop p q off0 s2"
  by (subst sep_by_void_loop.simps) simp

lemma sep_by_void_loop_rounds:
  "rounds q p n s = Some (ts, sn) \<Longrightarrow> sep_by_void_loop p q off0 s = sep_by_void_loop p q off0 sn"
proof (induction n arbitrary: s ts)
  case 0
  then show ?case by simp
next
  case (Suc n)
  from rounds_Suc [OF Suc.prems] obtain u s1 t s2 ts' where
    step: "q s = Some (Return u s1)" "\<not> fail s1" "p s1 = Some (Return t s2)" "\<not> fail s2" and
    rest: "rounds q p n s2 = Some (ts', sn)"
    by blast
  have "sep_by_void_loop p q off0 s = sep_by_void_loop p q off0 s2"
    using step by (rule sep_by_void_loop_step)
  also have "\<dots> = sep_by_void_loop p q off0 sn"
    using rest by (rule Suc.IH)
  finally show ?case .
qed

text \<open>
  C6 (as the code has it). If the first application of \<open>p\<close> returns failed, \<^verbatim>\<open>sep_by(p, q)\<close>
  succeeds with the empty collection; the state bits are cleared and the position is the one
  \<open>p\<close> left, so nothing is consumed when \<open>p\<close> failed without consuming. After a first element
  and \<open>n\<close> rounds, if the separator succeeds and the following application of \<open>p\<close> returns
  failed, then \<^verbatim>\<open>sep_by\<close> throws \<^verbatim>\<open>ParserError\<close> provided the offset differs from the offset at the
  entry of \<^verbatim>\<open>sep_by\<close>; if nothing has been consumed since entry it returns the empty
  collection with the failure flag set, a weak failure. If that application of \<open>p\<close> throws,
  the throw propagates. If the separator returns failed, the elements collected are returned
  as a success. The void form \<^verbatim>\<open>parser_sep_by<void, U>\<close> treats the missing element alike.
\<close>

theorem sep_by_outcome:
  "(p s = Some (Return t0 s1) \<and> fail s1 \<longrightarrow>
      parser_sep_by p q s = Some (Return [] (clear s1))
      \<and> \<not> fail (clear s1) \<and> pos (clear s1) = pos s1 \<and> rd (clear s1) = rd s1)
   \<and> (p s = Some (Return t0 s1) \<and> \<not> fail s1 \<and> rounds q p n s1 = Some (ts, sn)
        \<and> q sn = Some (Return u sq) \<and> \<not> fail sq \<and> p sq = Some (Return t sp) \<and> fail sp \<longrightarrow>
      parser_sep_by p q s =
        (if off (pos sp) \<noteq> off (pos s) then Some (Throw sp) else Some (Return [] sp)))
   \<and> (p s = Some (Return t0 s1) \<and> \<not> fail s1 \<and> rounds q p n s1 = Some (ts, sn)
        \<and> q sn = Some (Return u sq) \<and> \<not> fail sq \<and> p sq = Some (Throw sp) \<longrightarrow>
      parser_sep_by p q s = Some (Throw sp))
   \<and> (p s = Some (Return t0 s1) \<and> \<not> fail s1 \<and> rounds q p n s1 = Some (ts, sn)
        \<and> q sn = Some (Return u sq) \<and> fail sq \<longrightarrow>
      parser_sep_by p q s = Some (Return (t0 # ts) (clear sq)))
   \<and> (pv s = Some (Return u0 s1) \<and> \<not> fail s1 \<and> rounds q pv n s1 = Some (us, sn)
        \<and> q sn = Some (Return u sq) \<and> \<not> fail sq \<and> pv sq = Some (Return u' sp) \<and> fail sp \<longrightarrow>
      parser_sep_by_void pv q s =
        (if off (pos sp) \<noteq> off (pos s) then Some (Throw sp) else Some (Return () sp)))
   \<and> (pv s = Some (Return u0 s1) \<and> \<not> fail s1 \<and> rounds q pv n s1 = Some (us, sn)
        \<and> q sn = Some (Return u sq) \<and> \<not> fail sq \<and> pv sq = Some (Throw sp) \<longrightarrow>
      parser_sep_by_void pv q s = Some (Throw sp))"
proof -
  have first: "p s = Some (Return t0 s1) \<and> fail s1 \<longrightarrow>
      parser_sep_by p q s = Some (Return [] (clear s1))
      \<and> \<not> fail (clear s1) \<and> pos (clear s1) = pos s1 \<and> rd (clear s1) = rd s1"
    by (simp add: parser_sep_by_def clear_def fail_def)
  have enter: "parser_sep_by p q s = sep_by_loop p q (off (pos s)) (t0 # ts) sn"
    if "p s = Some (Return t0 s1)" "\<not> fail s1" "rounds q p n s1 = Some (ts, sn)"
  proof -
    have "parser_sep_by p q s = sep_by_loop p q (off (pos s)) [t0] s1"
      using that(1,2) by (simp add: parser_sep_by_def tellg_def)
    also have "\<dots> = sep_by_loop p q (off (pos s)) ([t0] @ ts) sn"
      using that(3) by (rule sep_by_loop_rounds)
    finally show ?thesis
      by simp
  qed
  have missing: "p s = Some (Return t0 s1) \<and> \<not> fail s1 \<and> rounds q p n s1 = Some (ts, sn)
        \<and> q sn = Some (Return u sq) \<and> \<not> fail sq \<and> p sq = Some (Return t sp) \<and> fail sp \<longrightarrow>
      parser_sep_by p q s =
        (if off (pos sp) \<noteq> off (pos s) then Some (Throw sp) else Some (Return [] sp))"
  proof
    assume h: "p s = Some (Return t0 s1) \<and> \<not> fail s1 \<and> rounds q p n s1 = Some (ts, sn)
        \<and> q sn = Some (Return u sq) \<and> \<not> fail sq \<and> p sq = Some (Return t sp) \<and> fail sp"
    then have "parser_sep_by p q s = sep_by_loop p q (off (pos s)) (t0 # ts) sn"
      using enter by blast
    also have "\<dots> = (if off (pos sp) \<noteq> off (pos s) then Some (Throw sp)
        else Some (Return [] sp))"
      using h by (subst sep_by_loop.simps) (simp add: tellg_def default_list_def)
    finally show "parser_sep_by p q s =
        (if off (pos sp) \<noteq> off (pos s) then Some (Throw sp) else Some (Return [] sp))" .
  qed
  have thrown: "p s = Some (Return t0 s1) \<and> \<not> fail s1 \<and> rounds q p n s1 = Some (ts, sn)
        \<and> q sn = Some (Return u sq) \<and> \<not> fail sq \<and> p sq = Some (Throw sp) \<longrightarrow>
      parser_sep_by p q s = Some (Throw sp)"
  proof
    assume h: "p s = Some (Return t0 s1) \<and> \<not> fail s1 \<and> rounds q p n s1 = Some (ts, sn)
        \<and> q sn = Some (Return u sq) \<and> \<not> fail sq \<and> p sq = Some (Throw sp)"
    then have "parser_sep_by p q s = sep_by_loop p q (off (pos s)) (t0 # ts) sn"
      using enter by blast
    also have "\<dots> = Some (Throw sp)"
      using h by (subst sep_by_loop.simps) simp
    finally show "parser_sep_by p q s = Some (Throw sp)" .
  qed
  have ended: "p s = Some (Return t0 s1) \<and> \<not> fail s1 \<and> rounds q p n s1 = Some (ts, sn)
        \<and> q sn = Some (Return u sq) \<and> fail sq \<longrightarrow>
      parser_sep_by p q s = Some (Return (t0 # ts) (clear sq))"
  proof
    assume h: "p s = Some (Return t0 s1) \<and> \<not> fail s1 \<and> rounds q p n s1 = Some (ts, sn)
        \<and> q sn = Some (Return u sq) \<and> fail sq"
    then have "parser_sep_by p q s = sep_by_loop p q (off (pos s)) (t0 # ts) sn"
      using enter by blast
    also have "\<dots> = Some (Return (t0 # ts) (clear sq))"
      using h by (subst sep_by_loop.simps) simp
    finally show "parser_sep_by p q s = Some (Return (t0 # ts) (clear sq))" .
  qed
  have venter: "parser_sep_by_void pv q s = sep_by_void_loop pv q (off (pos s)) sn"
    if "pv s = Some (Return u0 s1)" "\<not> fail s1" "rounds q pv n s1 = Some (us, sn)"
  proof -
    have "parser_sep_by_void pv q s = sep_by_void_loop pv q (off (pos s)) s1"
      using that(1,2) by (simp add: parser_sep_by_void_def tellg_def)
    also have "\<dots> = sep_by_void_loop pv q (off (pos s)) sn"
      using that(3) by (rule sep_by_void_loop_rounds)
    finally show ?thesis .
  qed
  have vmissing: "pv s = Some (Return u0 s1) \<and> \<not> fail s1 \<and> rounds q pv n s1 = Some (us, sn)
        \<and> q sn = Some (Return u sq) \<and> \<not> fail sq \<and> pv sq = Some (Return u' sp) \<and> fail sp \<longrightarrow>
      parser_sep_by_void pv q s =
        (if off (pos sp) \<noteq> off (pos s) then Some (Throw sp) else Some (Return () sp))"
  proof
    assume h: "pv s = Some (Return u0 s1) \<and> \<not> fail s1 \<and> rounds q pv n s1 = Some (us, sn)
        \<and> q sn = Some (Return u sq) \<and> \<not> fail sq \<and> pv sq = Some (Return u' sp) \<and> fail sp"
    then have "parser_sep_by_void pv q s = sep_by_void_loop pv q (off (pos s)) sn"
      using venter by blast
    also have "\<dots> = (if off (pos sp) \<noteq> off (pos s) then Some (Throw sp)
        else Some (Return () sp))"
      using h by (subst sep_by_void_loop.simps) (simp add: tellg_def)
    finally show "parser_sep_by_void pv q s =
        (if off (pos sp) \<noteq> off (pos s) then Some (Throw sp) else Some (Return () sp))" .
  qed
  have vthrown: "pv s = Some (Return u0 s1) \<and> \<not> fail s1 \<and> rounds q pv n s1 = Some (us, sn)
        \<and> q sn = Some (Return u sq) \<and> \<not> fail sq \<and> pv sq = Some (Throw sp) \<longrightarrow>
      parser_sep_by_void pv q s = Some (Throw sp)"
  proof
    assume h: "pv s = Some (Return u0 s1) \<and> \<not> fail s1 \<and> rounds q pv n s1 = Some (us, sn)
        \<and> q sn = Some (Return u sq) \<and> \<not> fail sq \<and> pv sq = Some (Throw sp)"
    then have "parser_sep_by_void pv q s = sep_by_void_loop pv q (off (pos s)) sn"
      using venter by blast
    also have "\<dots> = Some (Throw sp)"
      using h by (subst sep_by_void_loop.simps) simp
    finally show "parser_sep_by_void pv q s = Some (Throw sp)" .
  qed
  show ?thesis
    by (intro conjI first missing thrown ended vmissing vthrown)
qed

text \<open>
  A separator that parses successfully followed by a failing element does not always give an
  error failure. On the empty input \<^verbatim>\<open>try_(many(digit()))\<close> succeeds with the empty string, the
  separator \<^verbatim>\<open>eof()\<close> succeeds and leaves \<^verbatim>\<open>eofbit\<close> set, and the next \<^verbatim>\<open>try_(many(digit()))\<close>
  returns failed; nothing has been consumed, so \<^verbatim>\<open>RETURN_IF_FAIL\<close> returns:
  \<^verbatim>\<open>sep_by(try_(many(digit())), eof())\<close> ends with the failure flag set and no \<^verbatim>\<open>ParserError\<close>,
  and so does the void \<^verbatim>\<open>sep_by(try_(eof()), eof())\<close>.
\<close>

theorem sep_by_weak_failure_counterexample:
  "parser_try (parser_many digit) (open_stream '''') = Some (Return [] (open_stream ''''))
   \<and> eof (open_stream '''') = Some (Return () ((open_stream '''')\<lparr>eofbit := True\<rparr>))
   \<and> parser_try (parser_many digit) ((open_stream '''')\<lparr>eofbit := True\<rparr>)
       = Some (Return [] ((open_stream '''')\<lparr>failbit := True, eofbit := True\<rparr>))
   \<and> parser_sep_by (parser_try (parser_many digit)) eof (open_stream '''')
       = Some (Return [] ((open_stream '''')\<lparr>failbit := True, eofbit := True\<rparr>))
   \<and> parser_sep_by_void (parser_try eof) eof (open_stream '''')
       = Some (Return () ((open_stream '''')\<lparr>failbit := True, eofbit := True\<rparr>))"
  by code_simp


text \<open>
  With \<^verbatim>\<open>digit()\<close> separated by \<^verbatim>\<open>skip(',')\<close>: the empty input gives the empty collection and the
  stream untouched; \<^verbatim>\<open>"1,2,"\<close> throws at offset 4, where the element after the last separator
  is missing; \<^verbatim>\<open>"1,2,3"\<close> gives \<^verbatim>\<open>"123"\<close> with everything consumed. The last conjunct is the
  case with nothing consumed.
\<close>

theorem sep_by_outcome_witness:
  "parser_sep_by digit (skip (chr (CHR '',''))) (open_stream '''')
     = Some (Return [] (open_stream ''''))
   \<and> digit ((open_stream ''1,2,'')\<lparr>rd := 4, pos := \<lparr>off = 4, row = 1, col = 5\<rparr>,
         lastc := CHR '',''\<rparr>)
     = Some (Return default ((open_stream ''1,2,'')\<lparr>rd := 4, failbit := True, eofbit := True,
         pos := \<lparr>off = 4, row = 1, col = 5\<rparr>, lastc := CHR '',''\<rparr>))
   \<and> parser_sep_by digit (skip (chr (CHR '',''))) (open_stream ''1,2,'')
     = Some (Throw ((open_stream ''1,2,'')\<lparr>rd := 4, failbit := True, eofbit := True,
         pos := \<lparr>off = 4, row = 1, col = 5\<rparr>, lastc := CHR '',''\<rparr>))
   \<and> parser_sep_by digit (skip (chr (CHR '',''))) (open_stream ''1,2,3'')
     = Some (Return ''123'' ((open_stream ''1,2,3'')\<lparr>rd := 5,
         pos := \<lparr>off = 5, row = 1, col = 6\<rparr>, lastc := CHR ''3''\<rparr>))
   \<and> parser_sep_by (parser_try (parser_many digit)) eof (open_stream '''')
       = Some (Return [] ((open_stream '''')\<lparr>failbit := True, eofbit := True\<rparr>))"
proof -
  let ?sep = "skip (chr (CHR '',''))"
  let ?e = "open_stream ''''"
  let ?e1 = "?e\<lparr>failbit := True, eofbit := True\<rparr>"
  let ?a = "open_stream ''1,2,''"
  let ?a1 = "?a\<lparr>rd := 1, pos := \<lparr>off = 1, row = 1, col = 2\<rparr>, lastc := CHR ''1''\<rparr>"
  let ?a3 = "?a\<lparr>rd := 3, pos := \<lparr>off = 3, row = 1, col = 4\<rparr>, lastc := CHR ''2''\<rparr>"
  let ?a4 = "?a\<lparr>rd := 4, pos := \<lparr>off = 4, row = 1, col = 5\<rparr>, lastc := CHR '',''\<rparr>"
  let ?a5 = "?a\<lparr>rd := 4, failbit := True, eofbit := True,
      pos := \<lparr>off = 4, row = 1, col = 5\<rparr>, lastc := CHR '',''\<rparr>"
  let ?b = "open_stream ''1,2,3''"
  let ?b1 = "?b\<lparr>rd := 1, pos := \<lparr>off = 1, row = 1, col = 2\<rparr>, lastc := CHR ''1''\<rparr>"
  let ?b5 = "?b\<lparr>rd := 5, pos := \<lparr>off = 5, row = 1, col = 6\<rparr>, lastc := CHR ''3''\<rparr>"
  let ?b6 = "?b\<lparr>rd := 5, failbit := True, eofbit := True,
      pos := \<lparr>off = 5, row = 1, col = 6\<rparr>, lastc := CHR ''3''\<rparr>"
  let ?pt = "parser_try (parser_many digit)"
  have e1: "digit ?e = Some (Return default ?e1)"
    by code_simp
  have e2: "fail ?e1"
    by (simp add: fail_def)
  have e3: "clear ?e1 = ?e"
    by (simp add: clear_def open_stream_def)
  have "parser_sep_by digit ?sep ?e = Some (Return [] (clear ?e1))
      \<and> \<not> fail (clear ?e1) \<and> pos (clear ?e1) = pos ?e1 \<and> rd (clear ?e1) = rd ?e1"
    by (rule sep_by_outcome [of digit ?e default ?e1 ?sep, THEN conjunct1, THEN mp])
      (intro conjI e1 e2)
  then have e: "parser_sep_by digit ?sep ?e = Some (Return [] ?e)"
    by (simp add: e3)
  have a1: "digit ?a = Some (Return (CHR ''1'') ?a1)"
    by code_simp
  have a2: "\<not> fail ?a1" and a5: "\<not> fail ?a4"
    by (simp_all add: fail_def open_stream_def)
  have a3: "rounds ?sep digit 1 ?a1 = Some (''2'', ?a3)"
    by code_simp
  have a4: "?sep ?a3 = Some (Return () ?a4)"
    by code_simp
  have a6: "digit ?a4 = Some (Return default ?a5)"
    by code_simp
  have a7: "fail ?a5"
    by (simp add: fail_def)
  have "parser_sep_by digit ?sep ?a
      = (if off (pos ?a5) \<noteq> off (pos ?a) then Some (Throw ?a5) else Some (Return [] ?a5))"
    by (rule sep_by_outcome [of digit ?a "CHR ''1''" ?a1 ?sep 1 "''2''" ?a3 "()" ?a4 default ?a5,
          THEN conjunct2, THEN conjunct1, THEN mp])
      (intro conjI a1 a2 a3 a4 a5 a6 a7)
  then have a: "parser_sep_by digit ?sep ?a = Some (Throw ?a5)"
    by (simp add: open_stream_def Pos_init_def)
  have b1: "digit ?b = Some (Return (CHR ''1'') ?b1)"
    by code_simp
  have b2: "\<not> fail ?b1"
    by (simp add: fail_def open_stream_def)
  have b3: "rounds ?sep digit 2 ?b1 = Some (''23'', ?b5)"
    by code_simp
  have b4: "?sep ?b5 = Some (Return () ?b6)"
    by code_simp
  have b7: "fail ?b6"
    by (simp add: fail_def)
  have b8: "clear ?b6 = ?b5"
    by (simp add: clear_def open_stream_def)
  have "parser_sep_by digit ?sep ?b = Some (Return (CHR ''1'' # ''23'') (clear ?b6))"
    by (rule sep_by_outcome [of digit ?b "CHR ''1''" ?b1 ?sep 2 "''23''" ?b5 "()" ?b6,
          THEN conjunct2, THEN conjunct2, THEN conjunct2, THEN conjunct1, THEN mp])
      (intro conjI b1 b2 b3 b4 b7)
  then have b: "parser_sep_by digit ?sep ?b = Some (Return ''123'' ?b5)"
    by (simp add: b8)
  have w1: "?pt ?e = Some (Return [] ?e)"
    by code_simp
  have w2: "\<not> fail ?e" "\<not> fail (?e\<lparr>eofbit := True\<rparr>)"
    by (simp_all add: fail_def open_stream_def)
  have w3: "rounds eof ?pt 0 ?e = Some ([], ?e)"
    by simp
  have w4: "eof ?e = Some (Return () (?e\<lparr>eofbit := True\<rparr>))"
    by code_simp
  have w5: "?pt (?e\<lparr>eofbit := True\<rparr>) = Some (Return [] ?e1)"
    by code_simp
  have "parser_sep_by ?pt eof ?e
      = (if off (pos ?e1) \<noteq> off (pos ?e) then Some (Throw ?e1) else Some (Return [] ?e1))"
    by (rule sep_by_outcome [of ?pt ?e "[]" ?e eof 0 "[]" ?e "()" "?e\<lparr>eofbit := True\<rparr>"
          "[]" ?e1, THEN conjunct2, THEN conjunct1, THEN mp])
      (intro conjI w1 w2 w3 w4 w5 e2)
  then have w: "parser_sep_by ?pt eof ?e = Some (Return [] ?e1)"
    by simp
  from e a6 a b w show ?thesis
    by (intro conjI)
qed

section \<open>Failure by normal return, after the position has moved\<close>

text \<open>
  C9 does not hold of the code. On a fresh stream over the empty input, not failed and
  seekable, \<^verbatim>\<open>any_chr()\<close> returns normally with the failure flag set and the offset advanced
  from 0 to 1 (the column from 1 to 2): \<^verbatim>\<open>peek\<close> answers \<^verbatim>\<open>EOF\<close> and sets \<^verbatim>\<open>eofbit\<close>, \<^verbatim>\<open>match\<close>
  accepts the character \<^verbatim>\<open>char(EOF)\<close>, \<^verbatim>\<open>s.ignore()\<close> marks the failure instead of reading, and
  \<^verbatim>\<open>update_pos\<close> advances the position all the same. \<^verbatim>\<open>none_of("abc")\<close> does the same. A
  repetition absorbs the failure and keeps the position: \<^verbatim>\<open>many(none_of("\n"))\<close> on \<^verbatim>\<open>"abc"\<close>
  returns \<^verbatim>\<open>"abc"\<close> at offset 4 and column 5, one past the three characters read.
\<close>

theorem any_chr_at_end:
  "\<not> fail (open_stream '''') \<and> seekable (open_stream '''')
   \<and> any_chr (open_stream '''')
       = Some (Return (CHR 0xFF) ((open_stream '''')\<lparr>failbit := True, eofbit := True,
           pos := \<lparr>off = 1, row = 1, col = 2\<rparr>\<rparr>))
   \<and> none_of ''abc'' (open_stream '''')
       = Some (Return (CHR 0xFF) ((open_stream '''')\<lparr>failbit := True, eofbit := True,
           pos := \<lparr>off = 1, row = 1, col = 2\<rparr>\<rparr>))
   \<and> fail ((open_stream '''')\<lparr>failbit := True, eofbit := True,
           pos := \<lparr>off = 1, row = 1, col = 2\<rparr>\<rparr>)
   \<and> off (pos ((open_stream '''')\<lparr>failbit := True, eofbit := True,
           pos := \<lparr>off = 1, row = 1, col = 2\<rparr>\<rparr>)) \<noteq> off (pos (open_stream ''''))
   \<and> parser_many (none_of [CHR 0x0A]) (open_stream ''abc'')
       = Some (Return ''abc'' ((open_stream ''abc'')\<lparr>rd := 3,
           pos := \<lparr>off = 4, row = 1, col = 5\<rparr>, lastc := CHR ''c''\<rparr>))"
  by code_simp


end
